theory Spec2Isabelle
  imports Complex_Main
begin

section \<open>VideoComposer: numbers, data model\<close>

text \<open>
  The source is \<^verbatim>\<open>src/renderer/src/services/VideoComposer.ts\<close>. A JavaScript
  \<^verbatim>\<open>number\<close> that is an input of the composer (a duration, a timestamp, a word
  timing) is a finite value and is modelled as a \<open>real\<close>; arithmetic on finite values is
  exact, with one exception: where a number is turned into an integer by
  \<^verbatim>\<open>Math.floor\<close> or \<^verbatim>\<open>Math.ceil\<close>, rounding decides the integer, so the differences,
  the quotient and the product that lead to it are the double-precision operations of
  the host, which the model takes as parameters (\<open>fsub\<close>, \<open>fdiv\<close> and \<open>fmul\<close> of a
  \<open>Host\<close>, below). A division can leave the finite values, so the result of a division
  and everything computed from it is a \<open>jsnum\<close>, which adds \<open>Infinity\<close>, \<open>-Infinity\<close>
  and \<open>NaN\<close>.
\<close>

datatype jsnum = Num real | PosInf | NegInf | NaN

text \<open>
  The arithmetic of these values. Zero is unsigned in the model: the divisors of the
  source that can be zero (a sum that starts from \<open>0\<close>, a difference of two times, an
  image height) are never \<open>-0\<close>.
\<close>

fun jsneg :: "jsnum \<Rightarrow> jsnum" where
  "jsneg (Num x) = Num (- x)"
| "jsneg PosInf = NegInf"
| "jsneg NegInf = PosInf"
| "jsneg NaN = NaN"

fun jsadd :: "jsnum \<Rightarrow> jsnum \<Rightarrow> jsnum" where
  "jsadd (Num x) (Num y) = Num (x + y)"
| "jsadd NaN _ = NaN"
| "jsadd _ NaN = NaN"
| "jsadd PosInf NegInf = NaN"
| "jsadd NegInf PosInf = NaN"
| "jsadd PosInf _ = PosInf"
| "jsadd _ PosInf = PosInf"
| "jsadd NegInf _ = NegInf"
| "jsadd _ NegInf = NegInf"

definition jssub :: "jsnum \<Rightarrow> jsnum \<Rightarrow> jsnum" where
  "jssub a b = jsadd a (jsneg b)"

fun jsmul :: "jsnum \<Rightarrow> jsnum \<Rightarrow> jsnum" where
  "jsmul (Num x) (Num y) = Num (x * y)"
| "jsmul NaN _ = NaN"
| "jsmul _ NaN = NaN"
| "jsmul (Num x) PosInf = (if x = 0 then NaN else if 0 < x then PosInf else NegInf)"
| "jsmul (Num x) NegInf = (if x = 0 then NaN else if 0 < x then NegInf else PosInf)"
| "jsmul PosInf (Num y) = (if y = 0 then NaN else if 0 < y then PosInf else NegInf)"
| "jsmul NegInf (Num y) = (if y = 0 then NaN else if 0 < y then NegInf else PosInf)"
| "jsmul PosInf PosInf = PosInf"
| "jsmul PosInf NegInf = NegInf"
| "jsmul NegInf PosInf = NegInf"
| "jsmul NegInf NegInf = PosInf"

fun jsdiv :: "jsnum \<Rightarrow> jsnum \<Rightarrow> jsnum" where
  "jsdiv (Num x) (Num y) =
     (if y \<noteq> 0 then Num (x / y)
      else if x = 0 then NaN
      else if 0 < x then PosInf else NegInf)"
| "jsdiv NaN _ = NaN"
| "jsdiv _ NaN = NaN"
| "jsdiv (Num x) PosInf = Num 0"
| "jsdiv (Num x) NegInf = Num 0"
| "jsdiv PosInf (Num y) = (if 0 \<le> y then PosInf else NegInf)"
| "jsdiv NegInf (Num y) = (if 0 \<le> y then NegInf else PosInf)"
| "jsdiv PosInf _ = NaN"
| "jsdiv NegInf _ = NaN"

text \<open>\<^verbatim>\<open>a > b\<close>: every comparison with \<open>NaN\<close> is false.\<close>

fun jsgt :: "jsnum \<Rightarrow> jsnum \<Rightarrow> bool" where
  "jsgt (Num x) (Num y) = (y < x)"
| "jsgt NaN _ = False"
| "jsgt _ NaN = False"
| "jsgt PosInf PosInf = False"
| "jsgt PosInf _ = True"
| "jsgt _ PosInf = False"
| "jsgt NegInf _ = False"
| "jsgt _ NegInf = True"

text \<open>\<^verbatim>\<open>Math.min\<close> and \<^verbatim>\<open>Math.max\<close>: \<open>NaN\<close> if an argument is \<open>NaN\<close>.\<close>

fun jsmin :: "jsnum \<Rightarrow> jsnum \<Rightarrow> jsnum" where
  "jsmin (Num x) (Num y) = Num (min x y)"
| "jsmin NaN _ = NaN"
| "jsmin _ NaN = NaN"
| "jsmin NegInf _ = NegInf"
| "jsmin _ NegInf = NegInf"
| "jsmin PosInf b = b"
| "jsmin a PosInf = a"

fun jsmax :: "jsnum \<Rightarrow> jsnum \<Rightarrow> jsnum" where
  "jsmax (Num x) (Num y) = Num (max x y)"
| "jsmax NaN _ = NaN"
| "jsmax _ NaN = NaN"
| "jsmax PosInf _ = PosInf"
| "jsmax _ PosInf = PosInf"
| "jsmax NegInf b = b"
| "jsmax a NegInf = a"

text \<open>\<^verbatim>\<open>Math.floor\<close> and \<^verbatim>\<open>Math.ceil\<close>.\<close>

fun jsfloor :: "jsnum \<Rightarrow> jsnum" where
  "jsfloor (Num x) = Num (of_int \<lfloor>x\<rfloor>)"
| "jsfloor v = v"

fun jsceil :: "jsnum \<Rightarrow> jsnum" where
  "jsceil (Num x) = Num (of_int \<lceil>x\<rceil>)"
| "jsceil v = v"

text \<open>
  \<^verbatim>\<open>Array.prototype.slice\<close> and \<^verbatim>\<open>String.prototype.slice\<close>: a relative index is
  clamped to \<open>0 .. len\<close>, a negative one counts from the end. \<open>sliceIndex\<close> is
  \<open>ToIntegerOrInfinity\<close> before that: \<open>NaN\<close> is 0 and a finite value is truncated
  towards zero.
\<close>

definition relIndex :: "nat \<Rightarrow> int \<Rightarrow> nat" where
  "relIndex len k = (if k < 0 then nat (max (int len + k) 0) else nat (min k (int len)))"

fun sliceIndex :: "nat \<Rightarrow> jsnum \<Rightarrow> nat" where
  "sliceIndex len (Num x) = relIndex len (if x < 0 then \<lceil>x\<rceil> else \<lfloor>x\<rfloor>)"
| "sliceIndex len PosInf = len"
| "sliceIndex len NegInf = 0"
| "sliceIndex len NaN = 0"

text \<open>\<open>slice\<close> takes integer arguments, \<open>sliceNum\<close> any number.\<close>

definition slice :: "'a list \<Rightarrow> int \<Rightarrow> int \<Rightarrow> 'a list" where
  "slice xs s e =
     (let k = relIndex (length xs) s; f = relIndex (length xs) e
      in take (f - k) (drop k xs))"

definition sliceNum :: "'a list \<Rightarrow> jsnum \<Rightarrow> jsnum \<Rightarrow> 'a list" where
  "sliceNum xs s e =
     (let k = sliceIndex (length xs) s; f = sliceIndex (length xs) e
      in take (f - k) (drop k xs))"

text \<open>
  \<^verbatim>\<open>xs[i] || ''\<close> for a number \<open>i\<close>: an element exists only at an integer index
  within the array, and \<^verbatim>\<open>undefined\<close> gives the empty string.
\<close>

fun elemOrEmpty :: "string list \<Rightarrow> jsnum \<Rightarrow> string" where
  "elemOrEmpty xs (Num x) =
     (if x = of_int \<lfloor>x\<rfloor> \<and> 0 \<le> x \<and> \<lfloor>x\<rfloor> < int (length xs) then xs ! nat \<lfloor>x\<rfloor> else [])"
| "elemOrEmpty xs _ = []"

subsection \<open>Strings\<close>

text \<open>
  A string is a list of characters, one per UTF-16 code unit of the source string; a
  character of the model is a code unit below 256. Among these, \<^verbatim>\<open>\s\<close> matches tab,
  line feed, vertical tab, form feed, carriage return, space and the no-break space
  (code 160).
\<close>

fun join :: "string \<Rightarrow> string list \<Rightarrow> string" where
  "join sep [] = []"
| "join sep [x] = x"
| "join sep (x # y # ys) = x @ sep @ join sep (y # ys)"

text \<open>\<^verbatim>\<open>s.split(' ')\<close>\<close>

fun splitOn :: "char \<Rightarrow> string \<Rightarrow> string list" where
  "splitOn c [] = [[]]"
| "splitOn c (x # xs) =
     (if x = c then [] # splitOn c xs
      else (case splitOn c xs of w # ws \<Rightarrow> (x # w) # ws | [] \<Rightarrow> [[x]]))"

definition isSpace :: "char \<Rightarrow> bool" where
  "isSpace c = (of_char c \<in> {9, 10, 11, 12, 13, 32, 160 :: nat})"

text \<open>\<^verbatim>\<open>s.split(/\s+/)\<close>\<close>

function splitWs :: "string \<Rightarrow> string list" where
  "splitWs [] = [[]]"
| "splitWs (x # xs) =
     (if isSpace x then [] # splitWs (dropWhile isSpace xs)
      else (case splitWs xs of w # ws \<Rightarrow> (x # w) # ws | [] \<Rightarrow> [[x]]))"
  by pat_completeness auto
termination
  by (relation "measure length") (auto simp: less_Suc_eq_le length_dropWhile_le)

subsection \<open>Types of \<^verbatim>\<open>types/index.ts\<close>\<close>

datatype CaptionTemplate = Karaoke | WordByWord | Sentence | Minimal
datatype CaptionPosition = Top | Center | Bottom
datatype AspectRatio = AR_16_9 | AR_9_16 | AR_1_1
datatype FontSize = Small | Medium | Large

record CaptionSettings =
  template :: CaptionTemplate
  position :: CaptionPosition
  fontSize :: FontSize
  fontFamily :: string
  textColor :: string
  backgroundColor :: string

text \<open>
  Field names follow the source, except where a name is taken: \<open>wstart\<close> and \<open>wend\<close> are
  the \<open>start\<close> and \<open>end\<close> of a word timing, \<open>end'\<close> is the \<open>end\<close> of a scene timing, and
  \<open>text'\<close> is the \<open>text\<close> of a caption.
\<close>

record WordTiming =
  word :: string
  wstart :: real
  wend :: real

text \<open>
  An image element: \<open>placeholder\<close> is \<open>Some n\<close> for the placeholder made by
  \<^verbatim>\<open>createPlaceholder(n)\<close> and \<open>None\<close> for a loaded image; \<open>iwidth\<close> and \<open>iheight\<close>
  are the element's \<^verbatim>\<open>width\<close> and \<^verbatim>\<open>height\<close> (unsigned integers).
\<close>

record Image =
  placeholder :: "nat option"
  iwidth :: nat
  iheight :: nat

text \<open>
  A scene as composition sees it: \<open>duration\<close>, and \<open>imageUrl\<close>, which is absent, or the
  address of an image that \<^verbatim>\<open>loadImage\<close> resolves to, or one that it rejects.
\<close>

datatype ImageUrl = Loads Image | Fails

record Scene =
  duration :: real
  imageUrl :: "ImageUrl option"

record Caption =
  startTime :: real
  endTime :: real
  text' :: string
  words :: "WordTiming list option"

record Dims =
  width :: nat
  height :: nat

definition ASPECT_RATIO_DIMS :: "AspectRatio \<Rightarrow> Dims" where
  "ASPECT_RATIO_DIMS ar =
     (case ar of
        AR_16_9 \<Rightarrow> \<lparr>width = 1920, height = 1080\<rparr>
      | AR_9_16 \<Rightarrow> \<lparr>width = 1080, height = 1920\<rparr>
      | AR_1_1 \<Rightarrow> \<lparr>width = 1080, height = 1080\<rparr>)"

subsection \<open>The canvas\<close>

record Font =
  fweight :: string
  fpx :: real
  ffamily :: string

text \<open>
  The properties of the 2D context that the composer assigns. They persist from one call
  to the next, so the context is passed through every drawing function, and each
  drawing operation records the context it was issued under.
\<close>

record Ctx =
  font :: Font
  fillStyle :: string
  shadowColor :: string
  shadowBlur :: real
  shadowOffsetY :: real
  textAlign :: string
  textBaseline :: string

datatype DrawOp =
    FillRect Ctx real real real real
  | DrawImage Ctx Image jsnum jsnum jsnum jsnum
  | FillRoundRect Ctx real real real real real
  | FillText Ctx string real real

text \<open>A fresh context, as \<^verbatim>\<open>getContext('2d')\<close> returns it.\<close>

definition initialCtx :: Ctx where
  "initialCtx =
     \<lparr>font = \<lparr>fweight = ''normal'', fpx = 10, ffamily = ''sans-serif''\<rparr>,
      fillStyle = ''#000000'', shadowColor = ''rgba(0, 0, 0, 0)'', shadowBlur = 0,
      shadowOffsetY = 0, textAlign = ''start'', textBaseline = ''alphabetic''\<rparr>"

text \<open>
  \<^verbatim>\<open>bold ${px}px ${family}, system-ui\<close>; the weight is \<open>bold\<close> or \<open>500\<close>.
\<close>

definition mkFont :: "string \<Rightarrow> real \<Rightarrow> string \<Rightarrow> Font" where
  "mkFont w px fam = \<lparr>fweight = w, fpx = px, ffamily = fam\<rparr>"

subsection \<open>The host\<close>

text \<open>\<^verbatim>\<open>ctx.measureText(s).width\<close> under a font.\<close>

type_synonym Measure = "Font \<Rightarrow> string \<Rightarrow> real"

text \<open>
  What the composer takes from its host and the model takes as parameters: the text
  measurement of the canvas, \<^verbatim>\<open>String.prototype.toUpperCase\<close>, and the double-precision
  \<open>-\<close>, \<open>/\<close> and \<open>*\<close> on finite operands, the divisor not zero (\<open>fsub\<close>, \<open>fdiv\<close> and
  \<open>fmul\<close>), used for the numbers that are floored or ceiled.
\<close>

record Host =
  measureText :: Measure
  toUpperCase :: "string \<Rightarrow> string"
  fsub :: "real \<Rightarrow> real \<Rightarrow> real"
  fdiv :: "real \<Rightarrow> real \<Rightarrow> real"
  fmul :: "real \<Rightarrow> real \<Rightarrow> real"

text \<open>
  \<open>a / b\<close> and \<open>a * b\<close> with the host's operations on finite operands; a zero divisor and
  the values that are not finite behave as in \<open>jsdiv\<close> and \<open>jsmul\<close>.
\<close>

fun jsdivH :: "Host \<Rightarrow> jsnum \<Rightarrow> jsnum \<Rightarrow> jsnum" where
  "jsdivH h (Num x) (Num y) = (if y \<noteq> 0 then Num (fdiv h x y) else jsdiv (Num x) (Num y))"
| "jsdivH h a b = jsdiv a b"

fun jsmulH :: "Host \<Rightarrow> jsnum \<Rightarrow> jsnum \<Rightarrow> jsnum" where
  "jsmulH h (Num x) (Num y) = Num (fmul h x y)"
| "jsmulH h a b = jsmul a b"

section \<open>Timeline\<close>

record SceneTiming =
  start :: real
  end' :: real
  image :: Image

text \<open>\<^verbatim>\<open>scenes.reduce((acc, s) => acc + s.duration, 0)\<close>\<close>

definition totalDuration :: "Scene list \<Rightarrow> real" where
  "totalDuration scenes = foldl (\<lambda>acc s. acc + duration s) 0 scenes"

text \<open>
  The loop that fills \<^verbatim>\<open>sceneTimings\<close>: \<open>currentTime\<close> is the running sum, and
  \<open>images\<close> is the list built by the image-loading loop, \<open>images[i]\<close> beside \<open>scenes[i]\<close>.
\<close>

fun sceneTimingsFrom :: "real \<Rightarrow> Scene list \<Rightarrow> Image list \<Rightarrow> SceneTiming list" where
  "sceneTimingsFrom currentTime (s # scenes) (img # images) =
     \<lparr>start = currentTime, end' = currentTime + duration s, image = img\<rparr>
       # sceneTimingsFrom (currentTime + duration s) scenes images"
| "sceneTimingsFrom currentTime _ _ = []"


text \<open>
  \<^verbatim>\<open>createPlaceholder(sceneNum)\<close> paints a canvas of the output size and resolves to
  an image made from it.
\<close>

definition createPlaceholder :: "Dims \<Rightarrow> nat \<Rightarrow> Image" where
  "createPlaceholder d sceneNum = \<lparr>placeholder = Some sceneNum, iwidth = width d, iheight = height d\<rparr>"

text \<open>The image-loading loop, from scene \<open>i\<close> on: one image for each scene.\<close>

fun loadImages :: "Dims \<Rightarrow> nat \<Rightarrow> Scene list \<Rightarrow> Image list" where
  "loadImages d i [] = []"
| "loadImages d i (s # scenes) =
     (case imageUrl s of
        Some (Loads img) \<Rightarrow> img
      | Some Fails \<Rightarrow> createPlaceholder d (i + 1)
      | None \<Rightarrow> createPlaceholder d (i + 1))
       # loadImages d (i + 1) scenes"

definition sceneTimings :: "Dims \<Rightarrow> Scene list \<Rightarrow> SceneTiming list" where
  "sceneTimings d scenes = sceneTimingsFrom 0 scenes (loadImages d 0 scenes)"

text \<open>
  \<^verbatim>\<open>sceneTimings.find((s) => elapsed >= s.start && elapsed < s.end)
     || sceneTimings[sceneTimings.length - 1]\<close>;
  \<open>None\<close> is \<^verbatim>\<open>undefined\<close>, the value of \<^verbatim>\<open>[][-1]\<close>.
\<close>

definition currentScene :: "SceneTiming list \<Rightarrow> real \<Rightarrow> SceneTiming option" where
  "currentScene tms elapsed =
     (case find (\<lambda>s. elapsed \<ge> start s \<and> elapsed < end' s) tms of
        Some s \<Rightarrow> Some s
      | None \<Rightarrow> (if tms = [] then None else Some (tms ! (length tms - 1))))"

section \<open>Frame composition\<close>

text \<open>\<open>this.width\<close> and \<open>this.height\<close> are the \<open>Dims\<close> that \<^verbatim>\<open>load\<close> stores.\<close>

definition load :: "AspectRatio \<Rightarrow> Dims" where
  "load aspectRatio = ASPECT_RATIO_DIMS aspectRatio"

definition getFontSize :: "Dims \<Rightarrow> FontSize \<Rightarrow> real" where
  "getFontSize d sz =
     (let baseSize = real (min (width d) (height d)) / 18
      in case sz of
           Small \<Rightarrow> baseSize * 0.7
         | Medium \<Rightarrow> baseSize
         | Large \<Rightarrow> baseSize * 1.3)"

definition getYPosition :: "Dims \<Rightarrow> CaptionPosition \<Rightarrow> real" where
  "getYPosition d pos =
     (case pos of
        Top \<Rightarrow> real (height d) * 0.12
      | Center \<Rightarrow> real (height d) * 0.5
      | Bottom \<Rightarrow> real (height d) * 0.82)"

record Rect =
  drawX :: jsnum
  drawY :: jsnum
  drawWidth :: jsnum
  drawHeight :: jsnum

definition coverRect :: "Dims \<Rightarrow> Image \<Rightarrow> Rect" where
  "coverRect d img =
     (let imgAspect = jsdiv (Num (real (iwidth img))) (Num (real (iheight img)));
          canvasAspect = jsdiv (Num (real (width d))) (Num (real (height d)))
      in if jsgt imgAspect canvasAspect
         then (let dh = Num (real (height d));
                   dw = jsmul (Num (real (height d))) imgAspect
               in \<lparr>drawX = jsdiv (jssub (Num (real (width d))) dw) (Num 2), drawY = Num 0,
                   drawWidth = dw, drawHeight = dh\<rparr>)
         else (let dw = Num (real (width d));
                   dh = jsdiv (Num (real (width d))) imgAspect
               in \<lparr>drawX = Num 0, drawY = jsdiv (jssub (Num (real (height d))) dh) (Num 2),
                   drawWidth = dw, drawHeight = dh\<rparr>))"

definition drawImageCover :: "Dims \<Rightarrow> Ctx \<Rightarrow> Image \<Rightarrow> DrawOp" where
  "drawImageCover d ctx img =
     (let r = coverRect d img in DrawImage ctx img (drawX r) (drawY r) (drawWidth r) (drawHeight r))"

section \<open>Caption templates\<close>

subsection \<open>Sentence\<close>

text \<open>
  \<open>(currentTime - caption.startTime) / (caption.endTime - caption.startTime)\<close>
\<close>

definition captionProgress :: "Host \<Rightarrow> Caption \<Rightarrow> real \<Rightarrow> jsnum" where
  "captionProgress h c currentTime =
     jsdivH h (Num (fsub h currentTime (startTime c))) (Num (fsub h (endTime c) (startTime c)))"

text \<open>
  The wrapping loop of \<^verbatim>\<open>drawSentenceCaption\<close>, with \<open>lines\<close> and \<open>currentLine\<close> as
  its state and \<open>testLineOf currentLine word\<close> for \<open>testLine\<close>; the \<^verbatim>\<open>break\<close> leaves the loop with the word that did not fit in
  \<open>currentLine\<close>.
\<close>

definition testLineOf :: "string \<Rightarrow> string \<Rightarrow> string" where
  "testLineOf currentLine w = currentLine @ (if currentLine \<noteq> [] then '' '' else []) @ w"

fun wrapLoop :: "(string \<Rightarrow> real) \<Rightarrow> real \<Rightarrow> string list \<Rightarrow> string \<Rightarrow> string list
                  \<Rightarrow> string list \<times> string" where
  "wrapLoop mt maxWidth lines currentLine [] = (lines, currentLine)"
| "wrapLoop mt maxWidth lines currentLine (w # ws) =
     (if mt (testLineOf currentLine w) > maxWidth \<and> currentLine \<noteq> []
      then (if length (lines @ [currentLine]) \<ge> 2 then (lines @ [currentLine], w)
            else wrapLoop mt maxWidth (lines @ [currentLine]) w ws)
      else wrapLoop mt maxWidth lines (testLineOf currentLine w) ws)"

definition wrapLines :: "(string \<Rightarrow> real) \<Rightarrow> real \<Rightarrow> string \<Rightarrow> string list" where
  "wrapLines mt maxWidth visibleText =
     (case wrapLoop mt maxWidth [] [] (splitOn CHR '' '' visibleText) of
        (lines, currentLine) \<Rightarrow>
          if currentLine \<noteq> [] \<and> length lines < 2 then lines @ [currentLine] else lines)"

text \<open>
  For comparison with \<open>wrapLines\<close>: the same greedy wrapping without the limit of two
  lines, that is, the loop above without its \<^verbatim>\<open>break\<close> and the final push without its
  test of \<open>lines.length\<close>.
\<close>

fun wrapAllLoop :: "(string \<Rightarrow> real) \<Rightarrow> real \<Rightarrow> string list \<Rightarrow> string \<Rightarrow> string list
                     \<Rightarrow> string list" where
  "wrapAllLoop mt maxWidth lines currentLine [] =
     (if currentLine \<noteq> [] then lines @ [currentLine] else lines)"
| "wrapAllLoop mt maxWidth lines currentLine (w # ws) =
     (if mt (testLineOf currentLine w) > maxWidth \<and> currentLine \<noteq> []
      then wrapAllLoop mt maxWidth (lines @ [currentLine]) w ws
      else wrapAllLoop mt maxWidth lines (testLineOf currentLine w) ws)"

definition wrapAll :: "(string \<Rightarrow> real) \<Rightarrow> real \<Rightarrow> string \<Rightarrow> string list" where
  "wrapAll mt maxWidth visibleText = wrapAllLoop mt maxWidth [] [] (splitOn CHR '' '' visibleText)"

definition sentenceEndWordIdx :: "Host \<Rightarrow> Caption \<Rightarrow> real \<Rightarrow> jsnum" where
  "sentenceEndWordIdx h c currentTime =
     (let ws = splitOn CHR '' '' (text' c);
          progress = captionProgress h c currentTime
      in jsmin (Num (real (length ws)))
               (jsadd (jsceil (jsmulH h progress (Num (real (length ws))))) (Num 4)))"

definition sentenceStartWordIdx :: "Host \<Rightarrow> Caption \<Rightarrow> real \<Rightarrow> jsnum" where
  "sentenceStartWordIdx h c currentTime =
     jsmax (Num 0) (jssub (sentenceEndWordIdx h c currentTime) (Num 8))"

definition sentenceLines :: "Host \<Rightarrow> Dims \<Rightarrow> Caption \<Rightarrow> CaptionSettings \<Rightarrow> real \<Rightarrow> string list" where
  "sentenceLines h d c st currentTime =
     (let fontSz = getFontSize d (fontSize st);
          maxWidth = real (width d) * 0.85;
          ws = splitOn CHR '' '' (text' c);
          visibleText = join '' '' (sliceNum ws (sentenceStartWordIdx h c currentTime)
                                              (sentenceEndWordIdx h c currentTime))
      in wrapLines (measureText h (mkFont ''bold'' fontSz (fontFamily st))) maxWidth visibleText)"

text \<open>\<^verbatim>\<open>lines.forEach((line, i) => ...)\<close>, from line \<open>i\<close> on; \<open>n\<close> is \<open>lines.length\<close>.\<close>

fun sentenceTextOps :: "Ctx \<Rightarrow> Dims \<Rightarrow> real \<Rightarrow> real \<Rightarrow> nat \<Rightarrow> nat \<Rightarrow> string list \<Rightarrow> DrawOp list" where
  "sentenceTextOps ctx d y lineHeight n i [] = []"
| "sentenceTextOps ctx d y lineHeight n i (line # rest) =
     FillText ctx line (real (width d) / 2)
       (y - (real n - 1) * lineHeight / 2 + real i * lineHeight)
       # sentenceTextOps ctx d y lineHeight n (i + 1) rest"

definition drawSentenceCaption ::
  "Host \<Rightarrow> Dims \<Rightarrow> Ctx \<Rightarrow> Caption \<Rightarrow> CaptionSettings \<Rightarrow> real \<Rightarrow> DrawOp list \<times> Ctx" where
  "drawSentenceCaption h d ctx c st currentTime =
     (let fontSz = getFontSize d (fontSize st);
          y = getYPosition d (position st);
          padding = 20;
          maxWidth = real (width d) * 0.85;
          lineHeight = fontSz * 1.3;
          ctx1 = ctx\<lparr>font := mkFont ''bold'' fontSz (fontFamily st),
                     textAlign := ''center'', textBaseline := ''middle''\<rparr>;
          lines = sentenceLines h d c st currentTime;
          bgHeight = real (length lines) * lineHeight + padding * 2;
          ctx2 = ctx1\<lparr>fillStyle := backgroundColor st\<rparr>;
          bg = FillRoundRect ctx2 ((real (width d) - maxWidth) / 2 - padding) (y - bgHeight / 2)
                 (maxWidth + padding * 2) bgHeight 16;
          ctx3 = ctx2\<lparr>fillStyle := textColor st\<rparr>
      in (bg # sentenceTextOps ctx3 d y lineHeight (length lines) 0 lines, ctx3))"

subsection \<open>Minimal\<close>

definition minimalEndIdx :: "Host \<Rightarrow> Caption \<Rightarrow> real \<Rightarrow> jsnum" where
  "minimalEndIdx h c currentTime =
     (let ws = splitOn CHR '' '' (text' c);
          progress = captionProgress h c currentTime
      in jsmin (Num (real (length ws)))
               (jsadd (jsceil (jsmulH h progress (Num (real (length ws))))) (Num 3)))"

definition minimalStartIdx :: "Host \<Rightarrow> Caption \<Rightarrow> real \<Rightarrow> jsnum" where
  "minimalStartIdx h c currentTime =
     jsmax (Num 0) (jssub (minimalEndIdx h c currentTime) (Num 6))"

definition minimalText :: "Host \<Rightarrow> Caption \<Rightarrow> real \<Rightarrow> string" where
  "minimalText h c currentTime =
     (let ws = splitOn CHR '' '' (text' c);
          txt = join '' '' (sliceNum ws (minimalStartIdx h c currentTime)
                                      (minimalEndIdx h c currentTime))
      in slice txt 0 50)"

definition drawMinimalCaption ::
  "Host \<Rightarrow> Dims \<Rightarrow> Ctx \<Rightarrow> Caption \<Rightarrow> CaptionSettings \<Rightarrow> real \<Rightarrow> DrawOp list \<times> Ctx" where
  "drawMinimalCaption h d ctx c st currentTime =
     (let fontSz = getFontSize d Small;
          y = real (height d) - 80;
          ctx1 = ctx\<lparr>font := mkFont ''500'' fontSz (fontFamily st),
                     textAlign := ''center'', textBaseline := ''middle'',
                     fillStyle := ''rgba(255, 255, 255, 0.9)'',
                     shadowColor := ''rgba(0, 0, 0, 0.8)'', shadowBlur := 10\<rparr>
      in ([FillText ctx1 (minimalText h c currentTime) (real (width d) / 2) y],
          ctx1\<lparr>shadowBlur := 0\<rparr>))"

subsection \<open>Word by word\<close>

text \<open>
  \<open>Math.min(wordIdx, words.length - 1)\<close> of the branch without word timings, where
  \<open>words\<close> is \<^verbatim>\<open>caption.text.split(/\s+/)\<close>.
\<close>

definition wordByWordIdx :: "Host \<Rightarrow> Caption \<Rightarrow> real \<Rightarrow> jsnum" where
  "wordByWordIdx h c currentTime =
     (let ws = splitWs (text' c);
          progress = captionProgress h c currentTime;
          wordIdx = jsfloor (jsmulH h progress (Num (real (length ws))))
      in jsmin wordIdx (Num (real (length ws) - 1)))"

text \<open>
  \<open>currentWord\<close> of \<^verbatim>\<open>drawWordByWordCaption\<close>: the selected word in upper case, or the
  empty string it starts as when no timed word is found.
\<close>

definition wordByWordCurrent :: "Host \<Rightarrow> Caption \<Rightarrow> real \<Rightarrow> string" where
  "wordByWordCurrent h c currentTime =
     (case words c of
        Some (w # ws) \<Rightarrow>
          (case find (\<lambda>w. currentTime \<ge> wstart w \<and> currentTime < wend w) (w # ws) of
             Some found \<Rightarrow> toUpperCase h (word found)
           | None \<Rightarrow> [])
      | _ \<Rightarrow> toUpperCase h (elemOrEmpty (splitWs (text' c)) (wordByWordIdx h c currentTime)))"

definition drawWordByWordCaption ::
  "Host \<Rightarrow> Dims \<Rightarrow> Ctx \<Rightarrow> Caption \<Rightarrow> CaptionSettings \<Rightarrow> real \<Rightarrow> DrawOp list \<times> Ctx" where
  "drawWordByWordCaption h d ctx c st currentTime =
     (let fontSz = getFontSize d (fontSize st) * 2;
          y = getYPosition d (position st);
          ctx1 = ctx\<lparr>font := mkFont ''bold'' fontSz (fontFamily st),
                     textAlign := ''center'', textBaseline := ''middle''\<rparr>;
          currentWord = wordByWordCurrent h c currentTime
      in if currentWord = [] then ([], ctx1)
         else (let ctx2 = ctx1\<lparr>fillStyle := textColor st, shadowColor := ''rgba(0, 0, 0, 0.9)'',
                                shadowBlur := 30, shadowOffsetY := 5\<rparr>
               in ([FillText ctx2 currentWord (real (width d) / 2) y], ctx2\<lparr>shadowBlur := 0\<rparr>)))"

subsection \<open>Karaoke\<close>

text \<open>
  The two loops that set \<open>currentWordIdx\<close>: forwards for the first word whose span holds
  the time, then backwards for the last word that has ended; \<open>-1\<close> when neither finds one.
\<close>

fun forwardScan :: "real \<Rightarrow> WordTiming list \<Rightarrow> int \<Rightarrow> int" where
  "forwardScan currentTime [] i = - 1"
| "forwardScan currentTime (w # ws) i =
     (if currentTime \<ge> wstart w \<and> currentTime < wend w then i
      else forwardScan currentTime ws (i + 1))"

fun backwardScan :: "real \<Rightarrow> WordTiming list \<Rightarrow> nat \<Rightarrow> int" where
  "backwardScan currentTime ws 0 = - 1"
| "backwardScan currentTime ws (Suc i) =
     (if currentTime \<ge> wend (ws ! i) then int i else backwardScan currentTime ws i)"

definition currentWordIndex :: "WordTiming list \<Rightarrow> real \<Rightarrow> int" where
  "currentWordIndex ws currentTime =
     (let currentWordIdx = forwardScan currentTime ws 0
      in if currentWordIdx = - 1 then backwardScan currentTime ws (length ws)
         else currentWordIdx)"

text \<open>\<open>startIdx\<close> and \<open>endIdx\<close> of the visible words.\<close>

definition karaokeWindow :: "int \<Rightarrow> nat \<Rightarrow> int \<times> int" where
  "karaokeWindow currentWordIdx len =
     (let wordsPerLine = 4;
          totalWordsToShow = wordsPerLine * 2;
          startIdx = max 0 (currentWordIdx - wordsPerLine + 1);
          endIdx = min (int len) (startIdx + totalWordsToShow)
      in if endIdx = int len \<and> endIdx - startIdx < totalWordsToShow
         then (max 0 (endIdx - totalWordsToShow), endIdx)
         else (startIdx, endIdx))"

text \<open>The style that \<^verbatim>\<open>drawWordLine\<close> gives the word at \<open>globalIdx\<close>.\<close>

definition wordCtx :: "CaptionSettings \<Rightarrow> real \<Rightarrow> int \<Rightarrow> int \<Rightarrow> Ctx \<Rightarrow> Ctx" where
  "wordCtx st fontSz currentWordIdx globalIdx ctx =
     (if globalIdx = currentWordIdx
      then ctx\<lparr>fillStyle := ''#FFD700'', shadowColor := ''#FFD700'', shadowBlur := 15,
                font := mkFont ''bold'' (fontSz * 1.1) (fontFamily st)\<rparr>
      else if globalIdx < currentWordIdx
      then ctx\<lparr>fillStyle := textColor st, shadowBlur := 0,
                font := mkFont ''bold'' fontSz (fontFamily st)\<rparr>
      else ctx\<lparr>fillStyle := ''rgba(255, 255, 255, 0.5)'', shadowBlur := 0,
                font := mkFont ''bold'' fontSz (fontFamily st)\<rparr>)"

text \<open>The reset after each \<^verbatim>\<open>fillText\<close>.\<close>

definition afterWordCtx :: "CaptionSettings \<Rightarrow> real \<Rightarrow> Ctx \<Rightarrow> Ctx" where
  "afterWordCtx st fontSz ctx = ctx\<lparr>shadowBlur := 0, font := mkFont ''bold'' fontSz (fontFamily st)\<rparr>"

text \<open>
  \<^verbatim>\<open>words.forEach((word, i) => ...)\<close> of \<^verbatim>\<open>drawWordLine\<close>, from the word at
  \<open>globalIdx\<close> on, with the running \<open>x\<close>.
\<close>

fun wordLineLoop :: "Measure \<Rightarrow> CaptionSettings \<Rightarrow> real \<Rightarrow> real \<Rightarrow> int \<Rightarrow> WordTiming list
                     \<Rightarrow> int \<Rightarrow> real \<Rightarrow> Ctx \<Rightarrow> DrawOp list \<times> Ctx" where
  "wordLineLoop m st fontSz y currentWordIdx [] globalIdx x ctx = ([], ctx)"
| "wordLineLoop m st fontSz y currentWordIdx (w # ws) globalIdx x ctx =
     (case wordLineLoop m st fontSz y currentWordIdx ws (globalIdx + 1)
             (x + m (font (afterWordCtx st fontSz (wordCtx st fontSz currentWordIdx globalIdx ctx)))
                    (word w @ '' ''))
             (afterWordCtx st fontSz (wordCtx st fontSz currentWordIdx globalIdx ctx)) of
        (ops, ctx') \<Rightarrow>
          (FillText (wordCtx st fontSz currentWordIdx globalIdx ctx) (word w)
             (x + m (font ctx) (word w) / 2) y # ops, ctx'))"

definition drawWordLine :: "Measure \<Rightarrow> Dims \<Rightarrow> Ctx \<Rightarrow> WordTiming list \<Rightarrow> real \<Rightarrow> int \<Rightarrow> int
                     \<Rightarrow> CaptionSettings \<Rightarrow> real \<Rightarrow> DrawOp list \<times> Ctx" where
  "drawWordLine m d ctx ws y currentWordIdx lineStartIdx st fontSz =
     (let lineText = join '' '' (map word ws);
          textWidth = m (font ctx) lineText;
          x = real (width d) / 2 - textWidth / 2
      in wordLineLoop m st fontSz y currentWordIdx ws lineStartIdx x ctx)"

text \<open>The two lines of visible words, each with the global index of its first word.\<close>

definition karaokeLines :: "WordTiming list \<Rightarrow> real \<Rightarrow> (int \<times> WordTiming list) \<times> (int \<times> WordTiming list)" where
  "karaokeLines ws currentTime =
     (let currentWordIdx = currentWordIndex ws currentTime;
          (startIdx, endIdx) = karaokeWindow currentWordIdx (length ws);
          visibleWords = slice ws startIdx endIdx;
          half = \<lceil>real (length visibleWords) / 2\<rceil>;
          line1Words = slice visibleWords 0 half;
          line2Words = slice visibleWords half (int (length visibleWords))
      in ((startIdx, line1Words), (startIdx + int (length line1Words), line2Words)))"

definition drawKaraokeCaption ::
  "Host \<Rightarrow> Dims \<Rightarrow> Ctx \<Rightarrow> Caption \<Rightarrow> CaptionSettings \<Rightarrow> real \<Rightarrow> DrawOp list \<times> Ctx" where
  "drawKaraokeCaption h d ctx c st currentTime =
     (let fontSz = getFontSize d (fontSize st);
          y = getYPosition d (position st);
          padding = 20;
          lineHeight = fontSz * 1.3;
          maxWidth = real (width d) * 0.85;
          ctx1 = ctx\<lparr>font := mkFont ''bold'' fontSz (fontFamily st),
                     textAlign := ''center'', textBaseline := ''middle''\<rparr>;
          ws = (case words c of Some ws \<Rightarrow> ws | None \<Rightarrow> [])
      in if length ws = 0 then drawSentenceCaption h d ctx1 c st currentTime
         else
          (let currentWordIdx = currentWordIndex ws currentTime;
               ((start1, line1Words), (start2, line2Words)) = karaokeLines ws currentTime;
               bgHeight = lineHeight * 2 + padding * 2;
               ctx2 = ctx1\<lparr>fillStyle := backgroundColor st\<rparr>;
               bg = FillRoundRect ctx2 (real (width d) / 2 - maxWidth / 2 - padding) (y - bgHeight / 2)
                      (maxWidth + padding * 2) bgHeight 16;
               (ops1, ctx3) = drawWordLine (measureText h) d ctx2 line1Words (y - lineHeight / 2)
                                currentWordIdx start1 st fontSz;
               (ops2, ctx4) = (if length line2Words > 0
                               then drawWordLine (measureText h) d ctx3 line2Words (y + lineHeight / 2)
                                      currentWordIdx start2 st fontSz
                               else ([], ctx3))
           in (bg # ops1 @ ops2, ctx4)))"

section \<open>Frames\<close>

definition drawFrame ::
  "Host \<Rightarrow> Dims \<Rightarrow> Ctx \<Rightarrow> Image \<Rightarrow> Caption list \<Rightarrow> CaptionSettings \<Rightarrow> real \<Rightarrow> DrawOp list \<times> Ctx" where
  "drawFrame h d ctx img captions st currentTime =
     (let ctx1 = ctx\<lparr>fillStyle := ''#000000''\<rparr>;
          base = [FillRect ctx1 0 0 (real (width d)) (real (height d)), drawImageCover d ctx1 img]
      in case find (\<lambda>c. currentTime \<ge> startTime c \<and> currentTime < endTime c) captions of
           None \<Rightarrow> (base, ctx1)
         | Some caption \<Rightarrow>
             (case (case template st of
                      Karaoke \<Rightarrow> drawKaraokeCaption h d ctx1 caption st currentTime
                    | WordByWord \<Rightarrow> drawWordByWordCaption h d ctx1 caption st currentTime
                    | Sentence \<Rightarrow> drawSentenceCaption h d ctx1 caption st currentTime
                    | Minimal \<Rightarrow> drawMinimalCaption h d ctx1 caption st currentTime) of
                (ops, ctx2) \<Rightarrow> (base @ ops, ctx2)))"

section \<open>Composition\<close>

text \<open>
  What \<^verbatim>\<open>composeVideo\<close> does to its surroundings, in order: the messages passed to
  \<^verbatim>\<open>onProgress\<close>, the calls on the audio element, the recorder and the audio context,
  and the frames drawn on the captured canvas. The only exception of the source that the
  model raises is the \<open>TypeError\<close> of reading \<^verbatim>\<open>currentScene.image\<close> when
  \<open>currentScene\<close> is \<^verbatim>\<open>undefined\<close>; the host calls (canvas creation, audio metadata,
  \<^verbatim>\<open>MediaRecorder\<close>, \<^verbatim>\<open>audio.play\<close>) succeed.
\<close>

datatype Error = TypeError

datatype ProgressMsg =
    LoadingImages
  | LoadingImage nat nat
  | PreparingAudio
  | SettingUpRecording
  | RecordingVideo
  | RecordingPercent jsnum
  | FinalizingVideo
  | VideoReady
  | ErrorMsg Error

datatype Event =
    Progress ProgressMsg
  | CreateObjectURL
  | RecorderStart
  | AudioPlay
  | Frame "DrawOp list"
  | AudioPause
  | RecorderStop
  | AudioContextClose
  | RevokeObjectURL
  | ConsoleError Error

text \<open>The messages of the image-loading loop, from scene \<open>i\<close> on; \<open>n\<close> is \<open>scenes.length\<close>.\<close>

fun loadMessages :: "nat \<Rightarrow> nat \<Rightarrow> Scene list \<Rightarrow> Event list" where
  "loadMessages n i [] = []"
| "loadMessages n i (s # scenes) =
     (case imageUrl s of
        Some u \<Rightarrow> [Progress (LoadingImage (i + 1) n)]
      | None \<Rightarrow> [])
       @ loadMessages n (i + 1) scenes"

text \<open>
  The progress report of one tick: the messages it sends and the new \<open>lastProgress\<close>.
\<close>

definition progressPercentAt :: "Host \<Rightarrow> real \<Rightarrow> real \<Rightarrow> jsnum" where
  "progressPercentAt h tot elapsed =
     (let progress = jsmin (jsdivH h (Num elapsed) (Num tot)) (Num 1)
      in jsfloor (jsmulH h progress (Num 100)))"

definition reportProgress :: "Host \<Rightarrow> real \<Rightarrow> jsnum \<Rightarrow> real \<Rightarrow> Event list \<times> jsnum" where
  "reportProgress h tot lastProgress elapsed =
     (let progressPercent = progressPercentAt h tot elapsed
      in if jsgt progressPercent (jsadd lastProgress (Num 4))
         then ([Progress (RecordingPercent progressPercent)], progressPercent)
         else ([], lastProgress))"

text \<open>
  What stays fixed while the loop runs (\<open>rtotal\<close> is \<open>totalDuration\<close>, \<open>rtimings\<close> is
  \<open>sceneTimings\<close>), and what a tick changes (\<open>lastProgress\<close> and the canvas context).
\<close>

record Run =
  rhost :: Host
  rdims :: Dims
  rtimings :: "SceneTiming list"
  rtotal :: real
  rcaptions :: "Caption list"
  rsettings :: CaptionSettings

record LoopState =
  lastProgress :: jsnum
  canvasCtx :: Ctx

text \<open>
  One call of \<^verbatim>\<open>animate\<close> at the clock reading \<open>elapsed\<close>: the events up to the frame,
  then either the error thrown, or the new state and whether another tick is requested.
\<close>

definition tick :: "Run \<Rightarrow> LoopState \<Rightarrow> real \<Rightarrow> Event list \<times> (Error + LoopState \<times> bool)" where
  "tick r s elapsed =
     (case reportProgress (rhost r) (rtotal r) (lastProgress s) elapsed of
        (msgs, lastProgress') \<Rightarrow>
          (case currentScene (rtimings r) elapsed of
             None \<Rightarrow> (msgs, Inl TypeError)
           | Some sc \<Rightarrow>
               (case drawFrame (rhost r) (rdims r) (canvasCtx s) (image sc) (rcaptions r)
                       (rsettings r) elapsed of
                  (ops, ctx') \<Rightarrow>
                    (msgs @ [Frame ops],
                     Inr (\<lparr>lastProgress = lastProgress', canvasCtx = ctx'\<rparr>,
                          elapsed < rtotal r)))))"

text \<open>
  The loop over the clock readings, one for each tick. The first call of \<^verbatim>\<open>animate\<close>
  runs inside the promise that \<^verbatim>\<open>composeVideo\<close> awaits, so an error there is caught by
  its \<^verbatim>\<open>catch\<close>; a later call runs from \<^verbatim>\<open>requestAnimationFrame\<close>, where an error
  leaves the promise pending. \<open>Pending\<close> is also the end when the readings run out
  before the loop stops.
\<close>

datatype LoopEnd = Stopped | Threw Error | Pending

fun animate :: "Run \<Rightarrow> bool \<Rightarrow> LoopState \<Rightarrow> real list \<Rightarrow> Event list \<times> LoopEnd" where
  "animate r first s [] = ([], Pending)"
| "animate r first s (elapsed # clock) =
     (case tick r s elapsed of
        (evs, Inl err) \<Rightarrow> (evs, if first then Threw err else Pending)
      | (evs, Inr (s', again)) \<Rightarrow>
          if again
          then (case animate r False s' clock of (evs', e) \<Rightarrow> (evs @ evs', e))
          else (evs @ [AudioPause, RecorderStop], Stopped))"

text \<open>The frames that the recorder has captured: the returned blob.\<close>

fun frames :: "Event list \<Rightarrow> DrawOp list list" where
  "frames [] = []"
| "frames (Frame ops # evs) = ops # frames evs"
| "frames (_ # evs) = frames evs"

text \<open>
  The percentages reported in \<^verbatim>\<open>Recording: ${progressPercent}%\<close> messages, in order; and
  what it is for a list of them to be spaced by at least 5, each from the one before it,
  the first from \<open>l\<close>.
\<close>

fun reported :: "Event list \<Rightarrow> jsnum list" where
  "reported [] = []"
| "reported (Progress (RecordingPercent p) # evs) = p # reported evs"
| "reported (_ # evs) = reported evs"

fun spacedFrom :: "int \<Rightarrow> int list \<Rightarrow> bool" where
  "spacedFrom l [] = True"
| "spacedFrom l (p # ps) = (l + 5 \<le> p \<and> spacedFrom p ps)"

record Outcome =
  returned :: "DrawOp list list option"
  events :: "Event list"

text \<open>
  \<^verbatim>\<open>composeVideo\<close>; \<open>clock\<close> holds the values of \<open>elapsed\<close> that the successive ticks
  read. The result is \<open>None\<close> when the promise is still pending after these readings,
  and otherwise the value returned (\<open>returned = None\<close> for \<^verbatim>\<open>null\<close>) with the events.
\<close>

definition composeVideo ::
  "Host \<Rightarrow> Scene list \<Rightarrow> Caption list \<Rightarrow> CaptionSettings \<Rightarrow> AspectRatio \<Rightarrow> real list
     \<Rightarrow> Outcome option" where
  "composeVideo h scenes caps st aspectRatio clock =
     (let d = load aspectRatio;
          before = [Progress LoadingImages] @ loadMessages (length scenes) 0 scenes
                   @ [Progress PreparingAudio, CreateObjectURL, Progress SettingUpRecording,
                      Progress RecordingVideo, RecorderStart, AudioPlay];
          r = \<lparr>rhost = h, rdims = d, rtimings = sceneTimings d scenes,
               rtotal = totalDuration scenes, rcaptions = caps, rsettings = st\<rparr>
      in case animate r True \<lparr>lastProgress = Num 0, canvasCtx = initialCtx\<rparr> clock of
           (evs, Stopped) \<Rightarrow>
             Some \<lparr>returned = Some (frames evs),
                   events = before @ evs @ [Progress FinalizingVideo, AudioContextClose,
                                            RevokeObjectURL, Progress VideoReady]\<rparr>
         | (evs, Threw err) \<Rightarrow>
             Some \<lparr>returned = None,
                   events = before @ evs @ [ConsoleError err, Progress (ErrorMsg err)]\<rparr>
         | (evs, Pending) \<Rightarrow> None)"

section \<open>Properties: the timeline is contiguous\<close>

lemma length_loadImages: "length (loadImages d i scenes) = length scenes"
  by (induction scenes arbitrary: i) auto

lemma length_sceneTimingsFrom:
  "length imgs = length scenes \<Longrightarrow> length (sceneTimingsFrom c scenes imgs) = length scenes"
  by (induction c scenes imgs rule: sceneTimingsFrom.induct) auto

lemma foldl_duration: "foldl (\<lambda>acc s. acc + duration s) a scenes = a + sum_list (map duration scenes)"
  by (induction scenes arbitrary: a) auto

lemma sceneTimingsFrom_nth:
  "length imgs = length scenes \<Longrightarrow> i < length scenes \<Longrightarrow>
     start (sceneTimingsFrom c scenes imgs ! i) = c + sum_list (map duration (take i scenes))
   \<and> end' (sceneTimingsFrom c scenes imgs ! i) = c + sum_list (map duration (take (Suc i) scenes))
   \<and> image (sceneTimingsFrom c scenes imgs ! i) = imgs ! i"
proof (induction c scenes imgs arbitrary: i rule: sceneTimingsFrom.induct)
  case (1 c s scenes img images)
  show ?case
  proof (cases i)
    case 0
    then show ?thesis by simp
  next
    case (Suc k)
    with "1.prems" have "length images = length scenes" "k < length scenes" by auto
    from "1.IH"[OF this] Suc show ?thesis by (simp add: add.assoc)
  qed
qed auto

lemma prefix_sum_mono:
  assumes "\<forall>s\<in>set scenes. 0 \<le> duration s" "m \<le> n"
  shows "sum_list (map duration (take m scenes)) \<le> sum_list (map duration (take n scenes))"
proof -
  have "take n scenes = take m scenes @ take (n - m) (drop m scenes)"
    using assms(2) by (metis le_add_diff_inverse take_add)
  moreover have "0 \<le> sum_list (map duration (take (n - m) (drop m scenes)))"
    using assms(1) by (intro sum_list_nonneg) (auto dest!: in_set_takeD in_set_dropD)
  ultimately show ?thesis by simp
qed

lemma sum_interval_lengths:
  "length imgs = length scenes \<Longrightarrow>
   (\<Sum>tm\<leftarrow>sceneTimingsFrom c scenes imgs. end' tm - start tm) = sum_list (map duration scenes)"
  by (induction c scenes imgs rule: sceneTimingsFrom.induct) auto

text \<open>
  Claim C1. The timeline that \<^verbatim>\<open>composeVideo\<close> builds has one interval for each scene;
  the first starts at 0 and the last ends at \<open>totalDuration\<close>; each interval starts where
  the one before it ends and is as long as its scene; the lengths of the intervals add
  up to the sum of the scene durations, which is \<open>totalDuration\<close>; and when no scene has
  a negative duration, no time lies in two intervals.
\<close>

theorem timeline_contiguous:
  "length (sceneTimings d scenes) = length scenes
   \<and> (scenes \<noteq> [] \<longrightarrow> start (hd (sceneTimings d scenes)) = 0
                    \<and> end' (last (sceneTimings d scenes)) = totalDuration scenes)
   \<and> (\<forall>i. Suc i < length scenes \<longrightarrow>
          start (sceneTimings d scenes ! Suc i) = end' (sceneTimings d scenes ! i))
   \<and> (\<forall>i. i < length scenes \<longrightarrow>
          end' (sceneTimings d scenes ! i) - start (sceneTimings d scenes ! i) = duration (scenes ! i))
   \<and> (\<Sum>tm\<leftarrow>sceneTimings d scenes. end' tm - start tm) = (\<Sum>s\<leftarrow>scenes. duration s)
   \<and> (\<Sum>s\<leftarrow>scenes. duration s) = totalDuration scenes
   \<and> ((\<forall>s\<in>set scenes. 0 \<le> duration s) \<longrightarrow>
        (\<forall>i j t. i < j \<and> j < length scenes
                 \<and> start (sceneTimings d scenes ! i) \<le> t \<and> t < end' (sceneTimings d scenes ! i)
           \<longrightarrow> \<not> (start (sceneTimings d scenes ! j) \<le> t \<and> t < end' (sceneTimings d scenes ! j))))"
proof -
  let ?imgs = "loadImages d 0 scenes"
  let ?tms = "sceneTimings d scenes"
  have len: "length ?imgs = length scenes" by (rule length_loadImages)
  have tms: "?tms = sceneTimingsFrom 0 scenes ?imgs" by (simp add: sceneTimings_def)
  have L: "length ?tms = length scenes" unfolding tms by (rule length_sceneTimingsFrom[OF len])
  have nth: "\<And>i. i < length scenes \<Longrightarrow>
       start (?tms ! i) = sum_list (map duration (take i scenes))
     \<and> end' (?tms ! i) = sum_list (map duration (take (Suc i) scenes))"
    using sceneTimingsFrom_nth[OF len, of _ 0] unfolding tms by simp
  have tot: "totalDuration scenes = sum_list (map duration scenes)"
    by (simp add: totalDuration_def foldl_duration)
  have A: "scenes \<noteq> [] \<longrightarrow> start (hd ?tms) = 0 \<and> end' (last ?tms) = totalDuration scenes"
  proof
    assume ne: "scenes \<noteq> []"
    then have ne': "?tms \<noteq> []" using L by auto
    have "hd ?tms = ?tms ! 0" using ne' by (simp add: hd_conv_nth)
    moreover have "last ?tms = ?tms ! (length scenes - 1)" using ne' L by (simp add: last_conv_nth)
    moreover have "0 < length scenes" "length scenes - 1 < length scenes" using ne by auto
    ultimately show "start (hd ?tms) = 0 \<and> end' (last ?tms) = totalDuration scenes"
      using nth[of 0] nth[of "length scenes - 1"] tot by simp
  qed
  have B: "\<forall>i. Suc i < length scenes \<longrightarrow> start (?tms ! Suc i) = end' (?tms ! i)"
    using nth by (metis Suc_lessD)
  have C: "\<forall>i. i < length scenes \<longrightarrow> end' (?tms ! i) - start (?tms ! i) = duration (scenes ! i)"
    using nth by (simp add: take_Suc_conv_app_nth)
  have D: "(\<Sum>tm\<leftarrow>?tms. end' tm - start tm) = (\<Sum>s\<leftarrow>scenes. duration s)"
    unfolding tms by (rule sum_interval_lengths[OF len])
  have E: "(\<forall>s\<in>set scenes. 0 \<le> duration s) \<longrightarrow>
        (\<forall>i j t. i < j \<and> j < length scenes \<and> start (?tms ! i) \<le> t \<and> t < end' (?tms ! i)
           \<longrightarrow> \<not> (start (?tms ! j) \<le> t \<and> t < end' (?tms ! j)))"
  proof (intro impI allI)
    fix i j t
    assume nn: "\<forall>s\<in>set scenes. 0 \<le> duration s"
      and h: "i < j \<and> j < length scenes \<and> start (?tms ! i) \<le> t \<and> t < end' (?tms ! i)"
    then have "end' (?tms ! i) \<le> start (?tms ! j)"
      using nth[of i] nth[of j] prefix_sum_mono[OF nn, of "Suc i" j] by simp
    with h show "\<not> (start (?tms ! j) \<le> t \<and> t < end' (?tms ! j))" by simp
  qed
  show ?thesis using L A B C D E tot by simp
qed


theorem timeline_contiguous_witness:
  "(0 \<le> duration \<lparr>duration = 10, imageUrl = None\<rparr>
      \<and> 0 \<le> duration \<lparr>duration = 5, imageUrl = None\<rparr>
      \<and> 0 \<le> duration \<lparr>duration = 15, imageUrl = None\<rparr>)
   \<and> start (sceneTimings (load AR_16_9)
        [\<lparr>duration = 10, imageUrl = None\<rparr>, \<lparr>duration = 5, imageUrl = None\<rparr>,
         \<lparr>duration = 15, imageUrl = None\<rparr>] ! 2) = 15
   \<and> end' (sceneTimings (load AR_16_9)
        [\<lparr>duration = 10, imageUrl = None\<rparr>, \<lparr>duration = 5, imageUrl = None\<rparr>,
         \<lparr>duration = 15, imageUrl = None\<rparr>] ! 1) = 15
   \<and> totalDuration
        [\<lparr>duration = 10, imageUrl = None\<rparr>, \<lparr>duration = 5, imageUrl = None\<rparr>,
         \<lparr>duration = 15, imageUrl = None\<rparr>] = 30"
  using timeline_contiguous [of "load AR_16_9"
        "[\<lparr>duration = 10, imageUrl = None\<rparr>, \<lparr>duration = 5, imageUrl = None\<rparr>,
          \<lparr>duration = 15, imageUrl = None\<rparr>]"]
  by (simp add: sceneTimings_def totalDuration_def)

section \<open>Properties: the active scene\<close>

lemma sceneTimings_length: "length (sceneTimings d scenes) = length scenes"
  by (simp add: sceneTimings_def length_sceneTimingsFrom length_loadImages)

lemma sceneTimings_nth:
  "i < length scenes \<Longrightarrow>
     start (sceneTimings d scenes ! i) = sum_list (map duration (take i scenes))
   \<and> end' (sceneTimings d scenes ! i) = sum_list (map duration (take (Suc i) scenes))"
  using sceneTimingsFrom_nth[where c=0 and imgs="loadImages d 0 scenes" and scenes=scenes and i=i]
  by (simp add: sceneTimings_def length_loadImages)

lemma totalDuration_sum: "totalDuration scenes = sum_list (map duration scenes)"
  by (simp add: totalDuration_def foldl_duration)

lemma covering_index:
  assumes "0 \<le> t" "t < sum_list (map duration scenes)"
  shows "\<exists>i<length scenes. sum_list (map duration (take i scenes)) \<le> t
                          \<and> t < sum_list (map duration (take (Suc i) scenes))"
proof -
  define S where "S k = sum_list (map duration (take k scenes))" for k
  have Sn: "t < S (length scenes)" using assms(2) by (simp add: S_def)
  define k where "k = (LEAST k. t < S k)"
  have kt: "t < S k" unfolding k_def using Sn by (rule LeastI)
  have kle: "k \<le> length scenes" unfolding k_def using Sn by (rule Least_le)
  have "\<not> t < S 0" using assms(1) by (simp add: S_def)
  then have "k \<noteq> 0" using kt by (cases k) auto
  then obtain i where i: "k = Suc i" by (cases k) auto
  have "\<not> t < S i" using not_less_Least[of i "\<lambda>k. t < S k"] i by (simp add: k_def)
  then have "i < length scenes \<and> S i \<le> t \<and> t < S (Suc i)" using kt kle i by simp
  then show ?thesis unfolding S_def by blast
qed

lemma timings_ordered:
  assumes "\<forall>s\<in>set scenes. 0 \<le> duration s" "i < j" "j < length scenes"
  shows "end' (sceneTimings d scenes ! i) \<le> start (sceneTimings d scenes ! j)"
  using sceneTimings_nth[of i scenes d] sceneTimings_nth[of j scenes d]
        prefix_sum_mono[OF assms(1), of "Suc i" j] assms by simp

lemma timings_end_le_total:
  assumes "\<forall>s\<in>set scenes. 0 \<le> duration s" "i < length scenes"
  shows "end' (sceneTimings d scenes ! i) \<le> totalDuration scenes"
  using sceneTimings_nth[of i scenes d] prefix_sum_mono[OF assms(1), of "Suc i" "length scenes"] assms
  by (simp add: totalDuration_sum)

text \<open>
  Claim C2. For a non-empty scene list with strictly positive durations and a time
  \<open>t \<ge> 0\<close>, the scene lookup of the capture loop returns an interval: before
  \<open>totalDuration\<close> it is the interval that holds \<open>t\<close>, and no other interval holds \<open>t\<close>;
  from \<open>totalDuration\<close> on it is the last interval.
\<close>

theorem currentScene_total:
  assumes "scenes \<noteq> []" and "\<forall>s\<in>set scenes. 0 < duration s" and "0 \<le> t"
  shows "\<exists>sc. currentScene (sceneTimings d scenes) t = Some sc
           \<and> (t < totalDuration scenes \<longrightarrow>
                (\<exists>i<length scenes. sc = sceneTimings d scenes ! i \<and> start sc \<le> t \<and> t < end' sc
                   \<and> (\<forall>j<length scenes. start (sceneTimings d scenes ! j) \<le> t
                                         \<and> t < end' (sceneTimings d scenes ! j) \<longrightarrow> j = i)))
           \<and> (totalDuration scenes \<le> t \<longrightarrow> sc = last (sceneTimings d scenes))"
proof -
  let ?tms = "sceneTimings d scenes"
  let ?P = "\<lambda>s. t \<ge> start s \<and> t < end' s"
  have L: "length ?tms = length scenes" by (rule sceneTimings_length)
  have nn: "\<forall>s\<in>set scenes. 0 \<le> duration s" using assms(2) by (auto intro: less_imp_le)
  have ne: "?tms \<noteq> []" using L assms(1) by auto
  show ?thesis
  proof (cases "t < totalDuration scenes")
    case True
    then obtain i where i: "i < length scenes" "start (?tms ! i) \<le> t" "t < end' (?tms ! i)"
      using covering_index[OF assms(3), of scenes] sceneTimings_nth[of _ scenes d]
      by (auto simp: totalDuration_sum)
    have uniq: "j = i" if "j < length scenes" "start (?tms ! j) \<le> t" "t < end' (?tms ! j)" for j
    proof (rule ccontr)
      assume "j \<noteq> i"
      then consider "j < i" | "i < j" by linarith
      then show False
      proof cases
        case 1
        from timings_ordered[OF nn 1 i(1), of d] that i show False by simp
      next
        case 2
        from timings_ordered[OF nn 2 that(1), of d] that i show False by simp
      qed
    qed
    have "?tms ! i \<in> set ?tms" using i(1) L by simp
    then have "find ?P ?tms \<noteq> None" using i(2,3) unfolding find_None_iff by blast
    then obtain x where x: "find ?P ?tms = Some x" by blast
    then obtain k where k: "k < length ?tms" "?P (?tms ! k)" "x = ?tms ! k"
      by (auto simp: find_Some_iff)
    then have "k = i" using uniq[of k] L by simp
    then have cs: "currentScene ?tms t = Some (?tms ! i)" using x k by (simp add: currentScene_def)
    have "\<exists>i'<length scenes. ?tms ! i = ?tms ! i' \<and> start (?tms ! i) \<le> t \<and> t < end' (?tms ! i)
                   \<and> (\<forall>j<length scenes. start (?tms ! j) \<le> t \<and> t < end' (?tms ! j) \<longrightarrow> j = i')"
      using i uniq by blast
    then show ?thesis using cs True by simp
  next
    case False
    have "\<not> ?P s" if "s \<in> set ?tms" for s
    proof -
      from that obtain j where "j < length scenes" "s = ?tms ! j" using L by (auto simp: in_set_conv_nth)
      then show ?thesis using timings_end_le_total[OF nn, of j d] False by simp
    qed
    then have "find ?P ?tms = None" by (simp add: find_None_iff)
    then have "currentScene ?tms t = Some (last ?tms)"
      using ne by (simp add: currentScene_def last_conv_nth)
    then show ?thesis using False by simp
  qed
qed

theorem currentScene_total_witness:
  "[\<lparr>duration = 10, imageUrl = None\<rparr>, \<lparr>duration = 5, imageUrl = None\<rparr>] \<noteq> []
   \<and> 0 < duration \<lparr>duration = 10, imageUrl = None\<rparr>
   \<and> 0 < duration \<lparr>duration = 5, imageUrl = None\<rparr>
   \<and> (0::real) \<le> 12
   \<and> currentScene (sceneTimings (load AR_1_1)
         [\<lparr>duration = 10, imageUrl = None\<rparr>, \<lparr>duration = 5, imageUrl = None\<rparr>]) 12
       = Some \<lparr>start = 10, end' = 15, image = createPlaceholder (load AR_1_1) 2\<rparr>
   \<and> currentScene (sceneTimings (load AR_1_1)
         [\<lparr>duration = 10, imageUrl = None\<rparr>, \<lparr>duration = 5, imageUrl = None\<rparr>]) 15
       = Some \<lparr>start = 10, end' = 15, image = createPlaceholder (load AR_1_1) 2\<rparr>"
  using currentScene_total [of "[\<lparr>duration = 10, imageUrl = None\<rparr>, \<lparr>duration = 5, imageUrl = None\<rparr>]"
          12 "load AR_1_1"]
  by (simp add: sceneTimings_def currentScene_def numeral_2_eq_2)

section \<open>Properties: the karaoke window\<close>

lemma forwardScan_none:
  "(\<forall>w\<in>set ws. \<not> (wstart w \<le> t \<and> t < wend w)) \<Longrightarrow> forwardScan t ws i0 = - 1"
  by (induction ws arbitrary: i0) auto

lemma forwardScan_first:
  "k < length ws \<Longrightarrow> wstart (ws ! k) \<le> t \<and> t < wend (ws ! k) \<Longrightarrow>
   (\<forall>j<k. \<not> (wstart (ws ! j) \<le> t \<and> t < wend (ws ! j))) \<Longrightarrow>
   forwardScan t ws i0 = i0 + int k"
proof (induction ws arbitrary: i0 k)
  case Nil
  then show ?case by simp
next
  case (Cons w ws)
  show ?case
  proof (cases k)
    case 0
    with Cons.prems show ?thesis by simp
  next
    case (Suc k')
    have "\<not> (wstart w \<le> t \<and> t < wend w)" using Cons.prems(3)[rule_format, of 0] Suc by simp
    moreover have "forwardScan t ws (i0 + 1) = (i0 + 1) + int k'"
    proof (rule Cons.IH)
      show "k' < length ws" using Cons.prems(1) Suc by simp
      show "wstart (ws ! k') \<le> t \<and> t < wend (ws ! k')" using Cons.prems(2) Suc by simp
      show "\<forall>j<k'. \<not> (wstart (ws ! j) \<le> t \<and> t < wend (ws ! j))"
        using Cons.prems(3) Suc by (metis Suc_less_eq nth_Cons_Suc)
    qed
    ultimately show ?thesis using Suc by simp
  qed
qed

lemma backwardScan_none:
  "(\<forall>j<n. \<not> wend (ws ! j) \<le> t) \<Longrightarrow> backwardScan t ws n = - 1"
  by (induction n) auto

lemma backwardScan_last:
  "k < n \<Longrightarrow> wend (ws ! k) \<le> t \<Longrightarrow> (\<forall>j. k < j \<and> j < n \<longrightarrow> \<not> wend (ws ! j) \<le> t) \<Longrightarrow>
   backwardScan t ws n = int k"
proof (induction n)
  case 0
  then show ?case by simp
next
  case (Suc n)
  show ?case
  proof (cases "k = n")
    case True
    with Suc.prems show ?thesis by simp
  next
    case False
    then have "k < n" using Suc.prems(1) by simp
    moreover have "\<not> wend (ws ! n) \<le> t" using Suc.prems(3) \<open>k < n\<close> by simp
    ultimately show ?thesis using Suc by simp
  qed
qed

lemma forwardScan_range: "0 \<le> i0 \<Longrightarrow> forwardScan t ws i0 = - 1 \<or>
   (i0 \<le> forwardScan t ws i0 \<and> forwardScan t ws i0 < i0 + int (length ws))"
proof (induction ws arbitrary: i0)
  case Nil
  then show ?case by simp
next
  case (Cons a ws)
  from Cons.IH[of "i0 + 1"] Cons.prems show ?case by auto
qed

lemma backwardScan_range: "- 1 \<le> backwardScan t ws n \<and> backwardScan t ws n < int n"
  by (induction n) auto

lemma currentWordIndex_range:
  "- 1 \<le> currentWordIndex ws t \<and> currentWordIndex ws t < int (length ws)"
  using forwardScan_range[of 0 t ws] backwardScan_range[of t ws "length ws"]
  by (auto simp: currentWordIndex_def Let_def)

lemma slice_in_range:
  assumes "0 \<le> s" "s \<le> e" "e \<le> int (length xs)"
  shows "slice xs s e = take (nat e - nat s) (drop (nat s) xs)"
  using assms by (simp add: slice_def relIndex_def Let_def min_def)

lemma slice_length:
  assumes "0 \<le> s" "s \<le> e" "e \<le> int (length xs)"
  shows "length (slice xs s e) = nat (e - s)"
  using assms by (simp add: slice_in_range)

lemma slice_nth:
  assumes "0 \<le> s" "s \<le> e" "e \<le> int (length xs)" "k < length (slice xs s e)"
  shows "nat s + k < length xs \<and> slice xs s e ! k = xs ! (nat s + k)"
proof -
  have "k < nat (e - s)" using assms slice_length by metis
  then have "nat s + k < length xs" using assms(1-3) by linarith
  then show ?thesis using assms \<open>k < nat (e - s)\<close> by (simp add: slice_in_range) 
qed

lemma karaokeWindow_eq:
  assumes "karaokeWindow i len = (s, e)"
  shows "e = min (int len) (max 0 (i - 3) + 8)"
    and "s = (if e = int len \<and> e - max 0 (i - 3) < 8 then max 0 (e - 8) else max 0 (i - 3))"
  using assms by (auto simp: karaokeWindow_def Let_def split: if_splits)

lemma karaokeWindow_bounds:
  assumes "karaokeWindow i len = (s, e)"
  shows "0 \<le> s \<and> s \<le> e \<and> e \<le> int len \<and> e - s \<le> 8"
  using karaokeWindow_eq[OF assms] by (auto split: if_splits)

lemma ceiling_half: "\<lceil>real n / 2\<rceil> = int ((n + 1) div 2)"
proof -
  show ?thesis
  proof (cases "even n")
    case True
    then obtain k where "n = 2 * k" by (elim evenE)
    then show ?thesis by simp
  next
    case False
    then obtain k where n: "n = 2 * k + 1" by (elim oddE)
    have "\<lceil>real n / 2\<rceil> = int k + 1"
      unfolding ceiling_eq_iff using n by (simp add: field_simps)
    then show ?thesis using n by simp
  qed
qed

lemma slice_first_half: "slice v 0 (int ((length v + 1) div 2)) = take ((length v + 1) div 2) v"
  by (simp add: slice_def relIndex_def Let_def)

lemma slice_second_half:
  "slice v (int ((length v + 1) div 2)) (int (length v)) = drop ((length v + 1) div 2) v"
  by (simp add: slice_def relIndex_def Let_def)

lemma karaokeLines_split:
  assumes "karaokeWindow (currentWordIndex ws t) (length ws) = (s, e)"
  shows "\<exists>l1 l2. karaokeLines ws t = ((s, l1), (s + int (length l1), l2))
           \<and> l1 @ l2 = slice ws s e
           \<and> length l1 = (length (slice ws s e) + 1) div 2"
proof -
  let ?v = "slice ws s e"
  let ?h = "(length ?v + 1) div 2"
  have h: "?h \<le> length ?v" by simp
  have "karaokeLines ws t = ((s, take ?h ?v), (s + int (length (take ?h ?v)), drop ?h ?v))"
    unfolding karaokeLines_def Let_def assms prod.case ceiling_half slice_first_half slice_second_half
    by (rule refl)
  moreover have "length (take ?h ?v) = ?h" using h by simp
  moreover have "take ?h ?v @ drop ?h ?v = ?v" by (rule append_take_drop_id)
  ultimately show ?thesis by blast
qed

text \<open>
  Claim C4. For a word list \<open>ws\<close> and any index \<open>i\<close>, the visible window of the karaoke
  template is \<open>[max 0 (i - 3), min len (max 0 (i - 3) + 8))\<close>, with its start moved to
  \<open>max 0 (end - 8)\<close> when the end of the list cuts it short; it lies within the list and
  holds at most 8 words; the word at position \<open>k\<close> of the window is word \<open>start + k\<close> of the
  list; the index that the selection step produces is \<open>-1\<close> or an index of the list; and
  the two lines drawn are the window split in two, each line passed the index of its
  first word.
\<close>

theorem karaoke_window_bounds:
  assumes "karaokeWindow i (length ws) = (s, e)"
  shows "e = min (int (length ws)) (max 0 (i - 3) + 8)
       \<and> s = (if e = int (length ws) \<and> e - max 0 (i - 3) < 8 then max 0 (e - 8) else max 0 (i - 3))
       \<and> 0 \<le> s \<and> s \<le> e \<and> e \<le> int (length ws) \<and> e - s \<le> 8
       \<and> length (slice ws s e) = nat (e - s)
       \<and> length (slice ws s e) \<le> 8
       \<and> (\<forall>k<length (slice ws s e). nat s + k < length ws \<and> slice ws s e ! k = ws ! (nat s + k))
       \<and> - 1 \<le> currentWordIndex ws t \<and> currentWordIndex ws t < int (length ws)
       \<and> (i = currentWordIndex ws t \<longrightarrow>
            (\<exists>l1 l2. karaokeLines ws t = ((s, l1), (s + int (length l1), l2))
                     \<and> l1 @ l2 = slice ws s e))"
proof -
  note b = karaokeWindow_bounds[OF assms]
  have len: "length (slice ws s e) = nat (e - s)" using b by (simp add: slice_length)
  have nth: "\<forall>k<length (slice ws s e). nat s + k < length ws \<and> slice ws s e ! k = ws ! (nat s + k)"
    using b slice_nth[of s e ws] by blast
  have lines: "i = currentWordIndex ws t \<longrightarrow>
            (\<exists>l1 l2. karaokeLines ws t = ((s, l1), (s + int (length l1), l2))
                     \<and> l1 @ l2 = slice ws s e)"
    using karaokeLines_split[of ws t s e] assms by blast
  have le8: "length (slice ws s e) \<le> 8" using len b by linarith
  show ?thesis
    using karaokeWindow_eq[OF assms] b len le8 nth currentWordIndex_range[of ws t] lines
    apply (elim conjE)
    apply (intro conjI)
    apply assumption+
    done
qed

theorem karaoke_window_bounds_witness:
  "karaokeWindow (- 1) (length [\<lparr>word = ''a'', wstart = 1, wend = 2\<rparr>,
       \<lparr>word = ''b'', wstart = 2, wend = 3\<rparr>, \<lparr>word = ''c'', wstart = 3, wend = 4\<rparr>]) = (0, 3)
   \<and> length (slice [\<lparr>word = ''a'', wstart = 1, wend = 2\<rparr>,
       \<lparr>word = ''b'', wstart = 2, wend = 3\<rparr>, \<lparr>word = ''c'', wstart = 3, wend = 4\<rparr>] 0 3) = 3
   \<and> currentWordIndex [\<lparr>word = ''a'', wstart = 1, wend = 2\<rparr>,
       \<lparr>word = ''b'', wstart = 2, wend = 3\<rparr>, \<lparr>word = ''c'', wstart = 3, wend = 4\<rparr>] 0 = - 1"
  using karaoke_window_bounds [of "- 1" "[\<lparr>word = ''a'', wstart = 1, wend = 2\<rparr>,
       \<lparr>word = ''b'', wstart = 2, wend = 3\<rparr>, \<lparr>word = ''c'', wstart = 3, wend = 4\<rparr>]" 0 3 0]
  by (simp add: karaokeWindow_def currentWordIndex_def numeral_3_eq_3)

section \<open>Properties: the karaoke highlight\<close>

lemma wordCtx_style:
  "fillStyle (wordCtx st fs cur g ctx) =
     (if g = cur then ''#FFD700'' else if g < cur then textColor st else ''rgba(255, 255, 255, 0.5)'')"
  "fpx (font (wordCtx st fs cur g ctx)) = (if g = cur then fs * 1.1 else fs)"
  "shadowBlur (wordCtx st fs cur g ctx) = (if g = cur then 15 else 0)"
  by (simp_all add: wordCtx_def mkFont_def)

lemma wordLineLoop_Cons:
  "fst (wordLineLoop m st fs y cur (w # ws) g x ctx) =
     FillText (wordCtx st fs cur g ctx) (word w) (x + m (font ctx) (word w) / 2) y
       # fst (wordLineLoop m st fs y cur ws (g + 1)
                (x + m (font (afterWordCtx st fs (wordCtx st fs cur g ctx))) (word w @ '' ''))
                (afterWordCtx st fs (wordCtx st fs cur g ctx)))"
  by (simp split: prod.splits)

lemma wordLineLoop_length: "length (fst (wordLineLoop m st fs y cur ws g x ctx)) = length ws"
  by (induction ws arbitrary: g x ctx) (simp_all add: wordLineLoop_Cons del: wordLineLoop.simps(2))

lemma wordLineLoop_nth:
  "k < length ws \<Longrightarrow>
   \<exists>c0 x'. fst (wordLineLoop m st fs y cur ws g x ctx) ! k
            = FillText (wordCtx st fs cur (g + int k) c0) (word (ws ! k)) x' y"
proof (induction ws arbitrary: g x ctx k)
  case Nil
  then show ?case by simp
next
  case (Cons w ws)
  show ?case
  proof (cases k)
    case 0
    then show ?thesis unfolding wordLineLoop_Cons by auto
  next
    case (Suc k')
    then have "k' < length ws" using Cons.prems by simp
    from Cons.IH[OF this, of "g + 1"] Suc show ?thesis
      unfolding wordLineLoop_Cons by (simp add: add.assoc)
  qed
qed

lemma drawWordLine_length:
  "length (fst (drawWordLine m d ctx ws y cur g st fs)) = length ws"
  by (simp add: drawWordLine_def Let_def wordLineLoop_length)

lemma drawWordLine_nth:
  "k < length ws \<Longrightarrow>
   \<exists>c0 x'. fst (drawWordLine m d ctx ws y cur g st fs) ! k
            = FillText (wordCtx st fs cur (g + int k) c0) (word (ws ! k)) x' y"
  unfolding drawWordLine_def Let_def by (rule wordLineLoop_nth)

lemma drawKaraoke_lines:
  assumes "words c = Some ws" "ws \<noteq> []"
    and "karaokeLines ws t = ((s1, l1), (s2, l2))"
  shows "\<exists>bg c2 c3 ya yb.
           fst (drawKaraokeCaption h d ctx c st t)
           = bg # fst (drawWordLine (measureText h) d c2 l1 ya (currentWordIndex ws t) s1 st (getFontSize d (fontSize st)))
                @ fst (drawWordLine (measureText h) d c3 l2 yb (currentWordIndex ws t) s2 st (getFontSize d (fontSize st)))"
proof (cases "l2 = []")
  case True
  then have "fst (drawWordLine (measureText h) d c3 l2 yb cur s2 st fs) = []" for c3 yb cur fs
    by (simp add: drawWordLine_def Let_def)
  then show ?thesis
    using assms True by (simp add: drawKaraokeCaption_def Let_def case_prod_beta) blast
next
  case False
  then show ?thesis
    using assms by (simp add: drawKaraokeCaption_def Let_def case_prod_beta) blast
qed

lemma drawKaraoke_ops:
  assumes "words c = Some ws" "ws \<noteq> []"
    and "karaokeWindow (currentWordIndex ws t) (length ws) = (s, e)"
  shows "\<exists>bg ops. fst (drawKaraokeCaption h d ctx c st t) = bg # ops
           \<and> length ops = nat (e - s)
           \<and> (\<forall>k<length ops. \<exists>c0 x y.
                 ops ! k = FillText (wordCtx st (getFontSize d (fontSize st)) (currentWordIndex ws t)
                                       (s + int k) c0)
                             (word (ws ! (nat s + k))) x y)"
proof -
  let ?I = "currentWordIndex ws t"
  let ?fs = "getFontSize d (fontSize st)"
  note b = karaokeWindow_bounds[OF assms(3)]
  obtain l1 l2 where kl: "karaokeLines ws t = ((s, l1), (s + int (length l1), l2))"
    and app: "l1 @ l2 = slice ws s e"
    using karaokeLines_split[OF assms(3)] by blast
  obtain bg c2 c3 ya yb where ops:
    "fst (drawKaraokeCaption h d ctx c st t)
       = bg # fst (drawWordLine (measureText h) d c2 l1 ya ?I s st ?fs)
            @ fst (drawWordLine (measureText h) d c3 l2 yb ?I (s + int (length l1)) st ?fs)"
    using drawKaraoke_lines[OF assms(1,2) kl] by blast
  let ?A = "fst (drawWordLine (measureText h) d c2 l1 ya ?I s st ?fs)"
  let ?B = "fst (drawWordLine (measureText h) d c3 l2 yb ?I (s + int (length l1)) st ?fs)"
  have lA: "length ?A = length l1" and lB: "length ?B = length l2"
    by (rule drawWordLine_length)+
  have len: "length (?A @ ?B) = nat (e - s)"
    using lA lB app slice_length[of s e ws] b by (metis length_append)
  have nth: "\<exists>c0 x y. (?A @ ?B) ! k = FillText (wordCtx st ?fs ?I (s + int k) c0)
                                        (word (ws ! (nat s + k))) x y"
    if k: "k < length (?A @ ?B)" for k
  proof -
    have kk: "k < length (slice ws s e)" using k lA lB app by (metis length_append)
    have w: "(l1 @ l2) ! k = ws ! (nat s + k)"
      using slice_nth[of s e ws k] b kk app by simp
    show ?thesis
    proof (cases "k < length l1")
      case True
      obtain c0 x where "?A ! k = FillText (wordCtx st ?fs ?I (s + int k) c0) (word (l1 ! k)) x ya"
        using drawWordLine_nth[OF True] by blast
      moreover have "l1 ! k = ws ! (nat s + k)" using w True by (simp add: nth_append)
      ultimately show ?thesis using True lA by (auto simp: nth_append)
    next
      case False
      let ?k = "k - length l1"
      have k2: "?k < length l2" using False k lA lB by simp
      obtain c0 x where "?B ! ?k = FillText (wordCtx st ?fs ?I (s + int (length l1) + int ?k) c0)
                                     (word (l2 ! ?k)) x yb"
        using drawWordLine_nth[OF k2] by blast
      moreover have "l2 ! ?k = ws ! (nat s + k)" using w False by (simp add: nth_append)
      moreover have "s + int (length l1) + int ?k = s + int k" using False by simp
      ultimately show ?thesis using False lA by (auto simp: nth_append)
    qed
  qed
  show ?thesis using ops len nth by blast
qed

lemma currentWordIndex_first:
  assumes "k < length ws" "wstart (ws ! k) \<le> t \<and> t < wend (ws ! k)"
    and "\<forall>j<k. \<not> (wstart (ws ! j) \<le> t \<and> t < wend (ws ! j))"
  shows "currentWordIndex ws t = int k"
  using forwardScan_first[OF assms, of 0] by (simp add: currentWordIndex_def Let_def)

lemma currentWordIndex_gap:
  assumes "\<forall>j<length ws. \<not> (wstart (ws ! j) \<le> t \<and> t < wend (ws ! j))"
    and "k < length ws" "wend (ws ! k) \<le> t" "\<forall>j<length ws. wend (ws ! j) \<le> t \<longrightarrow> j \<le> k"
  shows "currentWordIndex ws t = int k"
proof -
  have "forwardScan t ws 0 = - 1"
    using assms(1) by (intro forwardScan_none) (auto simp: in_set_conv_nth)
  moreover have "backwardScan t ws (length ws) = int k"
    using assms(2-4) by (intro backwardScan_last) (auto simp: not_le[symmetric])
  ultimately show ?thesis by (simp add: currentWordIndex_def Let_def)
qed

lemma karaokeWindow_contains:
  assumes "0 \<le> i" "i < int len" "karaokeWindow i len = (s, e)"
  shows "s \<le> i \<and> i < e"
  using karaokeWindow_eq[OF assms(3)] assms(1,2) by (auto split: if_splits)

lemma drawKaraoke_styles:
  assumes "words c = Some ws" "ws \<noteq> []"
    and "karaokeWindow (currentWordIndex ws t) (length ws) = (s, e)"
  shows "\<exists>bg ops. fst (drawKaraokeCaption h d ctx c st t) = bg # ops
           \<and> length ops = nat (e - s)
           \<and> (\<forall>k<length ops. \<exists>cx x y.
                 ops ! k = FillText cx (word (ws ! (nat s + k))) x y
                 \<and> fillStyle cx =
                     (if s + int k = currentWordIndex ws t then ''#FFD700''
                      else if s + int k < currentWordIndex ws t then textColor st
                      else ''rgba(255, 255, 255, 0.5)'')
                 \<and> fpx (font cx) =
                     (if s + int k = currentWordIndex ws t then getFontSize d (fontSize st) * 1.1
                      else getFontSize d (fontSize st)))
           \<and> (0 \<le> currentWordIndex ws t \<longrightarrow>
                 s \<le> currentWordIndex ws t \<and> currentWordIndex ws t < e
                 \<and> (\<exists>cx x y.
                       ops ! nat (currentWordIndex ws t - s)
                         = FillText cx (word (ws ! nat (currentWordIndex ws t))) x y
                       \<and> fillStyle cx = ''#FFD700''
                       \<and> fpx (font cx) = getFontSize d (fontSize st) * 1.1))"
proof -
  let ?I = "currentWordIndex ws t"
  let ?fs = "getFontSize d (fontSize st)"
  obtain bg ops where o: "fst (drawKaraokeCaption h d ctx c st t) = bg # ops"
      "length ops = nat (e - s)"
      "\<forall>k<length ops. \<exists>c0 x y.
          ops ! k = FillText (wordCtx st ?fs ?I (s + int k) c0) (word (ws ! (nat s + k))) x y"
    using drawKaraoke_ops[OF assms, of h d ctx st] by blast
  have st: "\<exists>cx x y.
                 ops ! k = FillText cx (word (ws ! (nat s + k))) x y
                 \<and> fillStyle cx =
                     (if s + int k = ?I then ''#FFD700''
                      else if s + int k < ?I then textColor st
                      else ''rgba(255, 255, 255, 0.5)'')
                 \<and> fpx (font cx) = (if s + int k = ?I then ?fs * 1.1 else ?fs)"
    if kk: "k < length ops" for k
  proof -
    obtain c0 x y where "ops ! k = FillText (wordCtx st ?fs ?I (s + int k) c0)
                                     (word (ws ! (nat s + k))) x y"
      using o(3) kk by blast
    then show ?thesis using wordCtx_style(1,2) by blast
  qed
  have cur: "s \<le> ?I \<and> ?I < e
           \<and> (\<exists>cx x y. ops ! nat (?I - s) = FillText cx (word (ws ! nat ?I)) x y
                  \<and> fillStyle cx = ''#FFD700'' \<and> fpx (font cx) = ?fs * 1.1)"
    if nn: "0 \<le> ?I"
  proof -
    have lt: "?I < int (length ws)" using currentWordIndex_range[of ws t] by simp
    have in_w: "s \<le> ?I \<and> ?I < e" by (rule karaokeWindow_contains[OF nn lt assms(3)])
    have s0: "0 \<le> s" using karaokeWindow_bounds[OF assms(3)] by simp
    let ?k = "nat (?I - s)"
    have kk: "?k < length ops" using in_w o(2) by linarith
    have e1: "s + int ?k = ?I" using in_w by simp
    have e2: "nat s + ?k = nat ?I" using in_w s0 by linarith
    obtain cx x y where "ops ! ?k = FillText cx (word (ws ! (nat s + ?k))) x y"
      "fillStyle cx = (if s + int ?k = ?I then ''#FFD700''
                      else if s + int ?k < ?I then textColor st
                      else ''rgba(255, 255, 255, 0.5)'')"
      "fpx (font cx) = (if s + int ?k = ?I then ?fs * 1.1 else ?fs)"
      using st[OF kk] by blast
    then have "ops ! ?k = FillText cx (word (ws ! nat ?I)) x y
                  \<and> fillStyle cx = ''#FFD700'' \<and> fpx (font cx) = ?fs * 1.1"
      using e1 e2 by simp
    then show ?thesis using in_w by blast
  qed
  show ?thesis using o(1,2) st cur by blast
qed

text \<open>
  Claim C5. In the karaoke template at time \<open>t\<close>, the current word index is the first
  index whose word span \<open>[start, end)\<close> holds \<open>t\<close>, which is the only such index when the
  word timings are in order (each word ends before the next starts); when no span holds
  \<open>t\<close>, it is the greatest index whose word has ended by \<open>t\<close>. After the backdrop, one
  text is drawn for each word of the window, in order; the word at the current index is
  drawn in \<open>#FFD700\<close> at 1.1 times the font size, the words before it in the configured text
  colour, the words after it in translucent white. Whenever there is a current word
  (the index is not \<open>-1\<close>), it lies in the window, so it is among the words drawn and is
  the one highlighted.
\<close>

theorem karaoke_current_word:
  "(\<forall>k<length ws. wstart (ws ! k) \<le> t \<and> t < wend (ws ! k)
        \<and> (\<forall>j<k. \<not> (wstart (ws ! j) \<le> t \<and> t < wend (ws ! j)))
      \<longrightarrow> currentWordIndex ws t = int k)
   \<and> ((\<forall>i j. i < j \<and> j < length ws \<longrightarrow> wend (ws ! i) \<le> wstart (ws ! j)) \<longrightarrow>
        (\<forall>k<length ws. wstart (ws ! k) \<le> t \<and> t < wend (ws ! k) \<longrightarrow>
           currentWordIndex ws t = int k
           \<and> (\<forall>j<length ws. wstart (ws ! j) \<le> t \<and> t < wend (ws ! j) \<longrightarrow> j = k)))
   \<and> ((\<forall>j<length ws. \<not> (wstart (ws ! j) \<le> t \<and> t < wend (ws ! j))) \<longrightarrow>
        (\<forall>k<length ws. wend (ws ! k) \<le> t \<and> (\<forall>j<length ws. wend (ws ! j) \<le> t \<longrightarrow> j \<le> k)
           \<longrightarrow> currentWordIndex ws t = int k))
   \<and> (words c = Some ws \<and> ws \<noteq> []
        \<and> karaokeWindow (currentWordIndex ws t) (length ws) = (s, e) \<longrightarrow>
        (\<exists>bg ops. fst (drawKaraokeCaption h d ctx c st t) = bg # ops
           \<and> length ops = nat (e - s)
           \<and> (\<forall>k<length ops. \<exists>cx x y.
                 ops ! k = FillText cx (word (ws ! (nat s + k))) x y
                 \<and> fillStyle cx =
                     (if s + int k = currentWordIndex ws t then ''#FFD700''
                      else if s + int k < currentWordIndex ws t then textColor st
                      else ''rgba(255, 255, 255, 0.5)'')
                 \<and> fpx (font cx) =
                     (if s + int k = currentWordIndex ws t then getFontSize d (fontSize st) * 1.1
                      else getFontSize d (fontSize st)))
           \<and> (0 \<le> currentWordIndex ws t \<longrightarrow>
                 s \<le> currentWordIndex ws t \<and> currentWordIndex ws t < e
                 \<and> (\<exists>cx x y.
                       ops ! nat (currentWordIndex ws t - s)
                         = FillText cx (word (ws ! nat (currentWordIndex ws t))) x y
                       \<and> fillStyle cx = ''#FFD700''
                       \<and> fpx (font cx) = getFontSize d (fontSize st) * 1.1))))"
proof (intro conjI)
  show "\<forall>k<length ws. wstart (ws ! k) \<le> t \<and> t < wend (ws ! k)
        \<and> (\<forall>j<k. \<not> (wstart (ws ! j) \<le> t \<and> t < wend (ws ! j)))
      \<longrightarrow> currentWordIndex ws t = int k"
    using currentWordIndex_first by blast
next
  show "(\<forall>i j. i < j \<and> j < length ws \<longrightarrow> wend (ws ! i) \<le> wstart (ws ! j)) \<longrightarrow>
        (\<forall>k<length ws. wstart (ws ! k) \<le> t \<and> t < wend (ws ! k) \<longrightarrow>
           currentWordIndex ws t = int k
           \<and> (\<forall>j<length ws. wstart (ws ! j) \<le> t \<and> t < wend (ws ! j) \<longrightarrow> j = k))"
  proof (intro impI allI)
    fix k
    assume ord: "\<forall>i j. i < j \<and> j < length ws \<longrightarrow> wend (ws ! i) \<le> wstart (ws ! j)"
      and k: "k < length ws" and ck: "wstart (ws ! k) \<le> t \<and> t < wend (ws ! k)"
    have uniq: "j = k" if "j < length ws" "wstart (ws ! j) \<le> t \<and> t < wend (ws ! j)" for j
    proof (rule ccontr)
      assume "j \<noteq> k"
      then consider "j < k" | "k < j" by linarith
      then show False
      proof cases
        case 1
        then have "wend (ws ! j) \<le> wstart (ws ! k)" using ord k by blast
        then show False using that ck by simp
      next
        case 2
        then have "wend (ws ! k) \<le> wstart (ws ! j)" using ord that(1) by blast
        then show False using that ck by simp
      qed
    qed
    have "\<forall>j<k. \<not> (wstart (ws ! j) \<le> t \<and> t < wend (ws ! j))"
      using uniq k by (metis less_trans nat_neq_iff)
    then have "currentWordIndex ws t = int k" using currentWordIndex_first[OF k ck] by simp
    then show "currentWordIndex ws t = int k
           \<and> (\<forall>j<length ws. wstart (ws ! j) \<le> t \<and> t < wend (ws ! j) \<longrightarrow> j = k)"
      using uniq by blast
  qed
next
  show "(\<forall>j<length ws. \<not> (wstart (ws ! j) \<le> t \<and> t < wend (ws ! j))) \<longrightarrow>
        (\<forall>k<length ws. wend (ws ! k) \<le> t \<and> (\<forall>j<length ws. wend (ws ! j) \<le> t \<longrightarrow> j \<le> k)
           \<longrightarrow> currentWordIndex ws t = int k)"
    using currentWordIndex_gap by blast
next
  show "words c = Some ws \<and> ws \<noteq> []
        \<and> karaokeWindow (currentWordIndex ws t) (length ws) = (s, e) \<longrightarrow>
        (\<exists>bg ops. fst (drawKaraokeCaption h d ctx c st t) = bg # ops
           \<and> length ops = nat (e - s)
           \<and> (\<forall>k<length ops. \<exists>cx x y.
                 ops ! k = FillText cx (word (ws ! (nat s + k))) x y
                 \<and> fillStyle cx =
                     (if s + int k = currentWordIndex ws t then ''#FFD700''
                      else if s + int k < currentWordIndex ws t then textColor st
                      else ''rgba(255, 255, 255, 0.5)'')
                 \<and> fpx (font cx) =
                     (if s + int k = currentWordIndex ws t then getFontSize d (fontSize st) * 1.1
                      else getFontSize d (fontSize st)))
           \<and> (0 \<le> currentWordIndex ws t \<longrightarrow>
                 s \<le> currentWordIndex ws t \<and> currentWordIndex ws t < e
                 \<and> (\<exists>cx x y.
                       ops ! nat (currentWordIndex ws t - s)
                         = FillText cx (word (ws ! nat (currentWordIndex ws t))) x y
                       \<and> fillStyle cx = ''#FFD700''
                       \<and> fpx (font cx) = getFontSize d (fontSize st) * 1.1)))"
    using drawKaraoke_styles[of c ws t s e h d ctx st] by blast
qed

theorem karaoke_current_word_witness:
  "currentWordIndex [\<lparr>word = ''Hello'', wstart = 0, wend = 5 / 10\<rparr>, \<lparr>word = ''world'', wstart = 5 / 10, wend = 12 / 10\<rparr>] (3 / 10) = 0
   \<and> karaokeWindow 0 (length [\<lparr>word = ''Hello'', wstart = 0, wend = 5 / 10\<rparr>, \<lparr>word = ''world'', wstart = 5 / 10, wend = 12 / 10\<rparr>]) = (0, 2)
   \<and> map (\<lambda>op. case op of FillText cx txt x y \<Rightarrow> (txt, fillStyle cx, fpx (font cx)) | _ \<Rightarrow> ([], [], 0))
         (fst (drawKaraokeCaption \<lparr>measureText = (\<lambda>f s. real (length s) * fpx f / 2), toUpperCase = map (\<lambda>c. if 97 \<le> (of_char c :: nat) \<and> (of_char c :: nat) \<le> 122 then char_of ((of_char c :: nat) - 32) else c), fsub = (\<lambda>x y. x - y), fdiv = (\<lambda>x y. x / y), fmul = (\<lambda>x y. x * y)\<rparr> \<lparr>width = 18, height = 36\<rparr> initialCtx
                 \<lparr>startTime = 0, endTime = 12 / 10, text' = ''Hello world'', words = Some [\<lparr>word = ''Hello'', wstart = 0, wend = 5 / 10\<rparr>, \<lparr>word = ''world'', wstart = 5 / 10, wend = 12 / 10\<rparr>]\<rparr>
                 \<lparr>template = Karaoke, position = Bottom, fontSize = Large, fontFamily = ''Inter'', textColor = ''#ffffff'', backgroundColor = ''rgba(0, 0, 0, 0.8)''\<rparr> (3 / 10)))
       = [([], [], 0), (''Hello'', ''#FFD700'', 143 / 100), (''world'', ''rgba(255, 255, 255, 0.5)'', 13 / 10)]"
proof -
  have ev: "currentWordIndex [\<lparr>word = ''Hello'', wstart = 0, wend = 5 / 10\<rparr>, \<lparr>word = ''world'', wstart = 5 / 10, wend = 12 / 10\<rparr>] (3 / 10) = 0
   \<and> karaokeWindow 0 (length [\<lparr>word = ''Hello'', wstart = 0, wend = 5 / 10\<rparr>, \<lparr>word = ''world'', wstart = 5 / 10, wend = 12 / 10\<rparr>]) = (0, 2)
   \<and> map (\<lambda>op. case op of FillText cx txt x y \<Rightarrow> (txt, fillStyle cx, fpx (font cx)) | _ \<Rightarrow> ([], [], 0))
         (fst (drawKaraokeCaption \<lparr>measureText = (\<lambda>f s. real (length s) * fpx f / 2), toUpperCase = map (\<lambda>c. if 97 \<le> (of_char c :: nat) \<and> (of_char c :: nat) \<le> 122 then char_of ((of_char c :: nat) - 32) else c), fsub = (\<lambda>x y. x - y), fdiv = (\<lambda>x y. x / y), fmul = (\<lambda>x y. x * y)\<rparr> \<lparr>width = 18, height = 36\<rparr> initialCtx
                 \<lparr>startTime = 0, endTime = 12 / 10, text' = ''Hello world'', words = Some [\<lparr>word = ''Hello'', wstart = 0, wend = 5 / 10\<rparr>, \<lparr>word = ''world'', wstart = 5 / 10, wend = 12 / 10\<rparr>]\<rparr>
                 \<lparr>template = Karaoke, position = Bottom, fontSize = Large, fontFamily = ''Inter'', textColor = ''#ffffff'', backgroundColor = ''rgba(0, 0, 0, 0.8)''\<rparr> (3 / 10)))
       = [([], [], 0), (''Hello'', ''#FFD700'', 143 / 100), (''world'', ''rgba(255, 255, 255, 0.5)'', 13 / 10)]"
    by code_simp
  show ?thesis
    using karaoke_current_word [of "[\<lparr>word = ''Hello'', wstart = 0, wend = 5 / 10\<rparr>, \<lparr>word = ''world'', wstart = 5 / 10, wend = 12 / 10\<rparr>]" "3 / 10" "\<lparr>startTime = 0, endTime = 12 / 10, text' = ''Hello world'', words = Some [\<lparr>word = ''Hello'', wstart = 0, wend = 5 / 10\<rparr>, \<lparr>word = ''world'', wstart = 5 / 10, wend = 12 / 10\<rparr>]\<rparr>" 0 2 "\<lparr>measureText = (\<lambda>f s. real (length s) * fpx f / 2), toUpperCase = map (\<lambda>c. if 97 \<le> (of_char c :: nat) \<and> (of_char c :: nat) \<le> 122 then char_of ((of_char c :: nat) - 32) else c), fsub = (\<lambda>x y. x - y), fdiv = (\<lambda>x y. x / y), fmul = (\<lambda>x y. x * y)\<rparr>" "\<lparr>width = 18, height = 36\<rparr>" initialCtx "\<lparr>template = Karaoke, position = Bottom, fontSize = Large, fontFamily = ''Inter'', textColor = ''#ffffff'', backgroundColor = ''rgba(0, 0, 0, 0.8)''\<rparr>"]
    by - (rule ev)
qed

section \<open>Properties: progress reports\<close>

lemma progressPercentAt_pos:
  assumes "0 < tot"
  shows "progressPercentAt h tot elapsed
         = Num (of_int \<lfloor>fmul h (min (fdiv h elapsed tot) 1) 100\<rfloor>)"
  using assms by (simp add: progressPercentAt_def Let_def)

lemma reportProgress_pos:
  assumes "0 < tot"
  shows "reportProgress h tot (Num (of_int l)) elapsed =
           (if l + 5 \<le> \<lfloor>fmul h (min (fdiv h elapsed tot) 1) 100\<rfloor>
            then ([Progress (RecordingPercent
                     (Num (of_int \<lfloor>fmul h (min (fdiv h elapsed tot) 1) 100\<rfloor>)))],
                  Num (of_int \<lfloor>fmul h (min (fdiv h elapsed tot) 1) 100\<rfloor>))
            else ([], Num (of_int l)))"
proof -
  let ?p = "\<lfloor>fmul h (min (fdiv h elapsed tot) 1) 100\<rfloor>"
  have "(real_of_int l + 4 < real_of_int ?p) = (real_of_int (l + 4) < real_of_int ?p)" by simp
  also have "\<dots> = (l + 4 < ?p)" by (rule of_int_less_iff)
  also have "\<dots> = (l + 5 \<le> ?p)" by auto
  finally have "(real_of_int l + 4 < real_of_int ?p) = (l + 5 \<le> ?p)" .
  then show ?thesis
    using assms by (simp add: reportProgress_def progressPercentAt_pos Let_def)
qed

lemma reported_append: "reported (a @ b) = reported a @ reported b"
  by (induction a rule: reported.induct) auto

lemma tick_events:
  "fst (tick r s e) = fst (reportProgress (rhost r) (rtotal r) (lastProgress s) e)
   \<or> (\<exists>ops. fst (tick r s e)
         = fst (reportProgress (rhost r) (rtotal r) (lastProgress s) e) @ [Frame ops])"
  by (auto simp: tick_def split: prod.splits option.splits)

lemma tick_reported:
  "reported (fst (tick r s e))
   = reported (fst (reportProgress (rhost r) (rtotal r) (lastProgress s) e))"
  using tick_events[of r s e] by (auto simp: reported_append)

lemma tick_lastProgress:
  "tick r s e = (evs, Inr (s', again)) \<Longrightarrow>
   lastProgress s' = snd (reportProgress (rhost r) (rtotal r) (lastProgress s) e)"
  by (auto simp: tick_def split: prod.splits option.splits)

lemma animate_spaced:
  assumes "0 < rtotal r"
  shows "lastProgress s = Num (of_int l) \<Longrightarrow>
         \<exists>ps. reported (fst (animate r first s clock)) = map (\<lambda>p. Num (of_int p)) ps
              \<and> spacedFrom l ps"
proof (induction clock arbitrary: s l first)
  case Nil
  have "reported (fst (animate r first s [])) = map (\<lambda>p. Num (of_int p)) [] \<and> spacedFrom l []"
    by simp
  then show ?case by blast
next
  case (Cons e clock)
  let ?p = "\<lfloor>fmul (rhost r) (min (fdiv (rhost r) e (rtotal r)) 1) 100\<rfloor>"
  let ?rp = "reportProgress (rhost r) (rtotal r) (lastProgress s) e"
  note rp = reportProgress_pos[OF assms, of "rhost r" l e]
  have hd: "\<exists>qs l'. reported (fst ?rp) = map (\<lambda>p. Num (of_int p)) qs \<and> snd ?rp = Num (of_int l')
              \<and> (\<forall>ps. spacedFrom l' ps \<longrightarrow> spacedFrom l (qs @ ps))"
  proof (cases "l + 5 \<le> ?p")
    case True
    then have "reported (fst ?rp) = map (\<lambda>p. Num (of_int p)) [?p] \<and> snd ?rp = Num (of_int ?p)
              \<and> (\<forall>ps. spacedFrom ?p ps \<longrightarrow> spacedFrom l ([?p] @ ps))"
      using rp Cons.prems by simp
    then show ?thesis by blast
  next
    case False
    then have "reported (fst ?rp) = map (\<lambda>p. Num (of_int p)) [] \<and> snd ?rp = Num (of_int l)
              \<and> (\<forall>ps. spacedFrom l ps \<longrightarrow> spacedFrom l ([] @ ps))"
      using rp Cons.prems by simp
    then show ?thesis by blast
  qed
  then obtain qs l' where q: "reported (fst ?rp) = map (\<lambda>p. Num (of_int p)) qs"
      "snd ?rp = Num (of_int l')" "\<forall>ps. spacedFrom l' ps \<longrightarrow> spacedFrom l (qs @ ps)"
    by blast
  have tr: "reported (fst (tick r s e)) = map (\<lambda>p. Num (of_int p)) qs"
    using tick_reported[of r s e] q(1) by simp
  obtain evs res where t: "tick r s e = (evs, res)" by (cases "tick r s e")
  have evs: "reported evs = map (\<lambda>p. Num (of_int p)) qs" using tr t by simp
  have "spacedFrom l' []" by simp
  then have "spacedFrom l (qs @ [])" using q(3) by blast
  then have l0: "spacedFrom l qs" by simp
  show ?case
  proof (cases res)
    case (Inl err)
    then have "reported (fst (animate r first s (e # clock))) = map (\<lambda>p. Num (of_int p)) qs"
      using t evs by simp
    then show ?thesis using l0 by auto
  next
    case (Inr sa)
    obtain s' again where sa: "sa = (s', again)" by (cases sa)
    have lp: "lastProgress s' = Num (of_int l')"
      using tick_lastProgress[of r s e evs s' again] t Inr sa q(2) by simp
    show ?thesis
    proof (cases again)
      case True
      obtain ps where ps: "reported (fst (animate r False s' clock)) = map (\<lambda>p. Num (of_int p)) ps"
          "spacedFrom l' ps"
        using Cons.IH[OF lp, of False] by blast
      have "fst (animate r first s (e # clock)) = evs @ fst (animate r False s' clock)"
        using t Inr sa True by (simp split: prod.splits)
      then have "reported (fst (animate r first s (e # clock))) = map (\<lambda>p. Num (of_int p)) (qs @ ps)"
        using evs ps(1) by (simp add: reported_append)
      moreover have "spacedFrom l (qs @ ps)" using q(3) ps(2) by blast
      ultimately show ?thesis by blast
    next
      case False
      have "fst (animate r first s (e # clock)) = evs @ [AudioPause, RecorderStop]"
        using t Inr sa False by simp
      then have "reported (fst (animate r first s (e # clock))) = map (\<lambda>p. Num (of_int p)) qs"
        using evs by (simp add: reported_append)
      then show ?thesis using l0 by auto
    qed
  qed
qed

text \<open>
  Claim C9, as the code has it. In a run whose total duration is positive, while
  \<open>lastProgress\<close> holds an integer \<open>l\<close> (it starts at 0 and is only ever set to a reported
  percentage), the percentage of a tick is the integer \<open>p\<close> that the code computes: the
  floor of the product by 100 of the smaller of the quotient \<open>elapsed / total\<close> and 1,
  quotient and product as the host's double-precision operations deliver them. The tick
  reports progress exactly when \<open>p\<close> is at least \<open>l + 5\<close>, that is, strictly more than 4
  above the last report; the report carries \<open>p\<close>, which becomes the new \<open>lastProgress\<close>;
  otherwise nothing is sent and \<open>lastProgress\<close> stays. Over the whole loop, from any
  tick on, the percentages reported are integers, each at least 5 above the one before
  it and the first at least 5 above \<open>l\<close>.
\<close>

theorem progress_granularity:
  assumes "0 < rtotal r" and "lastProgress s = Num (of_int l)"
  shows "(\<exists>p. progressPercentAt (rhost r) (rtotal r) elapsed = Num (of_int p)
            \<and> p = \<lfloor>fmul (rhost r) (min (fdiv (rhost r) elapsed (rtotal r)) 1) 100\<rfloor>
            \<and> reportProgress (rhost r) (rtotal r) (lastProgress s) elapsed =
                (if l + 5 \<le> p
                 then ([Progress (RecordingPercent (Num (of_int p)))], Num (of_int p))
                 else ([], Num (of_int l))))
       \<and> (\<exists>ps. reported (fst (animate r first s clock)) = map (\<lambda>p. Num (of_int p)) ps
              \<and> spacedFrom l ps)"
proof -
  have "progressPercentAt (rhost r) (rtotal r) elapsed = Num (of_int \<lfloor>fmul (rhost r) (min (fdiv (rhost r) elapsed (rtotal r)) 1) 100\<rfloor>)"
    by (rule progressPercentAt_pos[OF assms(1)])
  moreover have "reportProgress (rhost r) (rtotal r) (lastProgress s) elapsed =
                (if l + 5 \<le> \<lfloor>fmul (rhost r) (min (fdiv (rhost r) elapsed (rtotal r)) 1) 100\<rfloor>
                 then ([Progress (RecordingPercent (Num (of_int \<lfloor>fmul (rhost r) (min (fdiv (rhost r) elapsed (rtotal r)) 1) 100\<rfloor>)))], Num (of_int \<lfloor>fmul (rhost r) (min (fdiv (rhost r) elapsed (rtotal r)) 1) 100\<rfloor>))
                 else ([], Num (of_int l)))"
    unfolding assms(2) by (rule reportProgress_pos[OF assms(1)])
  ultimately have A: "\<exists>p. progressPercentAt (rhost r) (rtotal r) elapsed = Num (of_int p)
            \<and> p = \<lfloor>fmul (rhost r) (min (fdiv (rhost r) elapsed (rtotal r)) 1) 100\<rfloor>
            \<and> reportProgress (rhost r) (rtotal r) (lastProgress s) elapsed =
                (if l + 5 \<le> p
                 then ([Progress (RecordingPercent (Num (of_int p)))], Num (of_int p))
                 else ([], Num (of_int l)))"
    by blast
  show ?thesis using A animate_spaced[OF assms, of first clock] by blast
qed

theorem progress_granularity_witness:
  "0 < rtotal \<lparr>rhost = \<lparr>measureText = (\<lambda>f s. real (length s) * fpx f / 2), toUpperCase = map (\<lambda>c. if 97 \<le> (of_char c :: nat) \<and> (of_char c :: nat) \<le> 122 then char_of ((of_char c :: nat) - 32) else c), fsub = (\<lambda>x y. x - y), fdiv = (\<lambda>x y. x / y), fmul = (\<lambda>x y. x * y)\<rparr>, rdims = \<lparr>width = 18, height = 36\<rparr>, rtimings = [\<lparr>start = 0, end' = 64, image = \<lparr>placeholder = Some 1, iwidth = 18, iheight = 36\<rparr>\<rparr>], rtotal = 64, rcaptions = [], rsettings = \<lparr>template = Sentence, position = Bottom, fontSize = Medium, fontFamily = ''Inter'', textColor = ''#ffffff'', backgroundColor = ''rgba(0, 0, 0, 0.8)''\<rparr>\<rparr> \<and> lastProgress \<lparr>lastProgress = Num (of_int 0), canvasCtx = initialCtx\<rparr> = Num (of_int 0)
   \<and> progressPercentAt (rhost \<lparr>rhost = \<lparr>measureText = (\<lambda>f s. real (length s) * fpx f / 2), toUpperCase = map (\<lambda>c. if 97 \<le> (of_char c :: nat) \<and> (of_char c :: nat) \<le> 122 then char_of ((of_char c :: nat) - 32) else c), fsub = (\<lambda>x y. x - y), fdiv = (\<lambda>x y. x / y), fmul = (\<lambda>x y. x * y)\<rparr>, rdims = \<lparr>width = 18, height = 36\<rparr>, rtimings = [\<lparr>start = 0, end' = 64, image = \<lparr>placeholder = Some 1, iwidth = 18, iheight = 36\<rparr>\<rparr>], rtotal = 64, rcaptions = [], rsettings = \<lparr>template = Sentence, position = Bottom, fontSize = Medium, fontFamily = ''Inter'', textColor = ''#ffffff'', backgroundColor = ''rgba(0, 0, 0, 0.8)''\<rparr>\<rparr>) (rtotal \<lparr>rhost = \<lparr>measureText = (\<lambda>f s. real (length s) * fpx f / 2), toUpperCase = map (\<lambda>c. if 97 \<le> (of_char c :: nat) \<and> (of_char c :: nat) \<le> 122 then char_of ((of_char c :: nat) - 32) else c), fsub = (\<lambda>x y. x - y), fdiv = (\<lambda>x y. x / y), fmul = (\<lambda>x y. x * y)\<rparr>, rdims = \<lparr>width = 18, height = 36\<rparr>, rtimings = [\<lparr>start = 0, end' = 64, image = \<lparr>placeholder = Some 1, iwidth = 18, iheight = 36\<rparr>\<rparr>], rtotal = 64, rcaptions = [], rsettings = \<lparr>template = Sentence, position = Bottom, fontSize = Medium, fontFamily = ''Inter'', textColor = ''#ffffff'', backgroundColor = ''rgba(0, 0, 0, 0.8)''\<rparr>\<rparr>) 4 = Num 6
   \<and> reportProgress (rhost \<lparr>rhost = \<lparr>measureText = (\<lambda>f s. real (length s) * fpx f / 2), toUpperCase = map (\<lambda>c. if 97 \<le> (of_char c :: nat) \<and> (of_char c :: nat) \<le> 122 then char_of ((of_char c :: nat) - 32) else c), fsub = (\<lambda>x y. x - y), fdiv = (\<lambda>x y. x / y), fmul = (\<lambda>x y. x * y)\<rparr>, rdims = \<lparr>width = 18, height = 36\<rparr>, rtimings = [\<lparr>start = 0, end' = 64, image = \<lparr>placeholder = Some 1, iwidth = 18, iheight = 36\<rparr>\<rparr>], rtotal = 64, rcaptions = [], rsettings = \<lparr>template = Sentence, position = Bottom, fontSize = Medium, fontFamily = ''Inter'', textColor = ''#ffffff'', backgroundColor = ''rgba(0, 0, 0, 0.8)''\<rparr>\<rparr>) (rtotal \<lparr>rhost = \<lparr>measureText = (\<lambda>f s. real (length s) * fpx f / 2), toUpperCase = map (\<lambda>c. if 97 \<le> (of_char c :: nat) \<and> (of_char c :: nat) \<le> 122 then char_of ((of_char c :: nat) - 32) else c), fsub = (\<lambda>x y. x - y), fdiv = (\<lambda>x y. x / y), fmul = (\<lambda>x y. x * y)\<rparr>, rdims = \<lparr>width = 18, height = 36\<rparr>, rtimings = [\<lparr>start = 0, end' = 64, image = \<lparr>placeholder = Some 1, iwidth = 18, iheight = 36\<rparr>\<rparr>], rtotal = 64, rcaptions = [], rsettings = \<lparr>template = Sentence, position = Bottom, fontSize = Medium, fontFamily = ''Inter'', textColor = ''#ffffff'', backgroundColor = ''rgba(0, 0, 0, 0.8)''\<rparr>\<rparr>) (lastProgress \<lparr>lastProgress = Num (of_int 0), canvasCtx = initialCtx\<rparr>) 4 = ([Progress (RecordingPercent (Num 6))], Num 6)
   \<and> reportProgress (rhost \<lparr>rhost = \<lparr>measureText = (\<lambda>f s. real (length s) * fpx f / 2), toUpperCase = map (\<lambda>c. if 97 \<le> (of_char c :: nat) \<and> (of_char c :: nat) \<le> 122 then char_of ((of_char c :: nat) - 32) else c), fsub = (\<lambda>x y. x - y), fdiv = (\<lambda>x y. x / y), fmul = (\<lambda>x y. x * y)\<rparr>, rdims = \<lparr>width = 18, height = 36\<rparr>, rtimings = [\<lparr>start = 0, end' = 64, image = \<lparr>placeholder = Some 1, iwidth = 18, iheight = 36\<rparr>\<rparr>], rtotal = 64, rcaptions = [], rsettings = \<lparr>template = Sentence, position = Bottom, fontSize = Medium, fontFamily = ''Inter'', textColor = ''#ffffff'', backgroundColor = ''rgba(0, 0, 0, 0.8)''\<rparr>\<rparr>) (rtotal \<lparr>rhost = \<lparr>measureText = (\<lambda>f s. real (length s) * fpx f / 2), toUpperCase = map (\<lambda>c. if 97 \<le> (of_char c :: nat) \<and> (of_char c :: nat) \<le> 122 then char_of ((of_char c :: nat) - 32) else c), fsub = (\<lambda>x y. x - y), fdiv = (\<lambda>x y. x / y), fmul = (\<lambda>x y. x * y)\<rparr>, rdims = \<lparr>width = 18, height = 36\<rparr>, rtimings = [\<lparr>start = 0, end' = 64, image = \<lparr>placeholder = Some 1, iwidth = 18, iheight = 36\<rparr>\<rparr>], rtotal = 64, rcaptions = [], rsettings = \<lparr>template = Sentence, position = Bottom, fontSize = Medium, fontFamily = ''Inter'', textColor = ''#ffffff'', backgroundColor = ''rgba(0, 0, 0, 0.8)''\<rparr>\<rparr>) (Num 6) 6 = ([], Num 6)
   \<and> reported (fst (animate \<lparr>rhost = \<lparr>measureText = (\<lambda>f s. real (length s) * fpx f / 2), toUpperCase = map (\<lambda>c. if 97 \<le> (of_char c :: nat) \<and> (of_char c :: nat) \<le> 122 then char_of ((of_char c :: nat) - 32) else c), fsub = (\<lambda>x y. x - y), fdiv = (\<lambda>x y. x / y), fmul = (\<lambda>x y. x * y)\<rparr>, rdims = \<lparr>width = 18, height = 36\<rparr>, rtimings = [\<lparr>start = 0, end' = 64, image = \<lparr>placeholder = Some 1, iwidth = 18, iheight = 36\<rparr>\<rparr>], rtotal = 64, rcaptions = [], rsettings = \<lparr>template = Sentence, position = Bottom, fontSize = Medium, fontFamily = ''Inter'', textColor = ''#ffffff'', backgroundColor = ''rgba(0, 0, 0, 0.8)''\<rparr>\<rparr> True \<lparr>lastProgress = Num (of_int 0), canvasCtx = initialCtx\<rparr> [2, 4, 6, 8, 64])) = [Num 6, Num 12, Num 100]
   \<and> snd (animate \<lparr>rhost = \<lparr>measureText = (\<lambda>f s. real (length s) * fpx f / 2), toUpperCase = map (\<lambda>c. if 97 \<le> (of_char c :: nat) \<and> (of_char c :: nat) \<le> 122 then char_of ((of_char c :: nat) - 32) else c), fsub = (\<lambda>x y. x - y), fdiv = (\<lambda>x y. x / y), fmul = (\<lambda>x y. x * y)\<rparr>, rdims = \<lparr>width = 18, height = 36\<rparr>, rtimings = [\<lparr>start = 0, end' = 64, image = \<lparr>placeholder = Some 1, iwidth = 18, iheight = 36\<rparr>\<rparr>], rtotal = 64, rcaptions = [], rsettings = \<lparr>template = Sentence, position = Bottom, fontSize = Medium, fontFamily = ''Inter'', textColor = ''#ffffff'', backgroundColor = ''rgba(0, 0, 0, 0.8)''\<rparr>\<rparr> True \<lparr>lastProgress = Num (of_int 0), canvasCtx = initialCtx\<rparr> [2, 4, 6, 8, 64]) = Stopped"
proof -
  have ev: "0 < rtotal \<lparr>rhost = \<lparr>measureText = (\<lambda>f s. real (length s) * fpx f / 2), toUpperCase = map (\<lambda>c. if 97 \<le> (of_char c :: nat) \<and> (of_char c :: nat) \<le> 122 then char_of ((of_char c :: nat) - 32) else c), fsub = (\<lambda>x y. x - y), fdiv = (\<lambda>x y. x / y), fmul = (\<lambda>x y. x * y)\<rparr>, rdims = \<lparr>width = 18, height = 36\<rparr>, rtimings = [\<lparr>start = 0, end' = 64, image = \<lparr>placeholder = Some 1, iwidth = 18, iheight = 36\<rparr>\<rparr>], rtotal = 64, rcaptions = [], rsettings = \<lparr>template = Sentence, position = Bottom, fontSize = Medium, fontFamily = ''Inter'', textColor = ''#ffffff'', backgroundColor = ''rgba(0, 0, 0, 0.8)''\<rparr>\<rparr> \<and> lastProgress \<lparr>lastProgress = Num (of_int 0), canvasCtx = initialCtx\<rparr> = Num (of_int 0)
   \<and> progressPercentAt (rhost \<lparr>rhost = \<lparr>measureText = (\<lambda>f s. real (length s) * fpx f / 2), toUpperCase = map (\<lambda>c. if 97 \<le> (of_char c :: nat) \<and> (of_char c :: nat) \<le> 122 then char_of ((of_char c :: nat) - 32) else c), fsub = (\<lambda>x y. x - y), fdiv = (\<lambda>x y. x / y), fmul = (\<lambda>x y. x * y)\<rparr>, rdims = \<lparr>width = 18, height = 36\<rparr>, rtimings = [\<lparr>start = 0, end' = 64, image = \<lparr>placeholder = Some 1, iwidth = 18, iheight = 36\<rparr>\<rparr>], rtotal = 64, rcaptions = [], rsettings = \<lparr>template = Sentence, position = Bottom, fontSize = Medium, fontFamily = ''Inter'', textColor = ''#ffffff'', backgroundColor = ''rgba(0, 0, 0, 0.8)''\<rparr>\<rparr>) (rtotal \<lparr>rhost = \<lparr>measureText = (\<lambda>f s. real (length s) * fpx f / 2), toUpperCase = map (\<lambda>c. if 97 \<le> (of_char c :: nat) \<and> (of_char c :: nat) \<le> 122 then char_of ((of_char c :: nat) - 32) else c), fsub = (\<lambda>x y. x - y), fdiv = (\<lambda>x y. x / y), fmul = (\<lambda>x y. x * y)\<rparr>, rdims = \<lparr>width = 18, height = 36\<rparr>, rtimings = [\<lparr>start = 0, end' = 64, image = \<lparr>placeholder = Some 1, iwidth = 18, iheight = 36\<rparr>\<rparr>], rtotal = 64, rcaptions = [], rsettings = \<lparr>template = Sentence, position = Bottom, fontSize = Medium, fontFamily = ''Inter'', textColor = ''#ffffff'', backgroundColor = ''rgba(0, 0, 0, 0.8)''\<rparr>\<rparr>) 4 = Num 6
   \<and> reportProgress (rhost \<lparr>rhost = \<lparr>measureText = (\<lambda>f s. real (length s) * fpx f / 2), toUpperCase = map (\<lambda>c. if 97 \<le> (of_char c :: nat) \<and> (of_char c :: nat) \<le> 122 then char_of ((of_char c :: nat) - 32) else c), fsub = (\<lambda>x y. x - y), fdiv = (\<lambda>x y. x / y), fmul = (\<lambda>x y. x * y)\<rparr>, rdims = \<lparr>width = 18, height = 36\<rparr>, rtimings = [\<lparr>start = 0, end' = 64, image = \<lparr>placeholder = Some 1, iwidth = 18, iheight = 36\<rparr>\<rparr>], rtotal = 64, rcaptions = [], rsettings = \<lparr>template = Sentence, position = Bottom, fontSize = Medium, fontFamily = ''Inter'', textColor = ''#ffffff'', backgroundColor = ''rgba(0, 0, 0, 0.8)''\<rparr>\<rparr>) (rtotal \<lparr>rhost = \<lparr>measureText = (\<lambda>f s. real (length s) * fpx f / 2), toUpperCase = map (\<lambda>c. if 97 \<le> (of_char c :: nat) \<and> (of_char c :: nat) \<le> 122 then char_of ((of_char c :: nat) - 32) else c), fsub = (\<lambda>x y. x - y), fdiv = (\<lambda>x y. x / y), fmul = (\<lambda>x y. x * y)\<rparr>, rdims = \<lparr>width = 18, height = 36\<rparr>, rtimings = [\<lparr>start = 0, end' = 64, image = \<lparr>placeholder = Some 1, iwidth = 18, iheight = 36\<rparr>\<rparr>], rtotal = 64, rcaptions = [], rsettings = \<lparr>template = Sentence, position = Bottom, fontSize = Medium, fontFamily = ''Inter'', textColor = ''#ffffff'', backgroundColor = ''rgba(0, 0, 0, 0.8)''\<rparr>\<rparr>) (lastProgress \<lparr>lastProgress = Num (of_int 0), canvasCtx = initialCtx\<rparr>) 4 = ([Progress (RecordingPercent (Num 6))], Num 6)
   \<and> reportProgress (rhost \<lparr>rhost = \<lparr>measureText = (\<lambda>f s. real (length s) * fpx f / 2), toUpperCase = map (\<lambda>c. if 97 \<le> (of_char c :: nat) \<and> (of_char c :: nat) \<le> 122 then char_of ((of_char c :: nat) - 32) else c), fsub = (\<lambda>x y. x - y), fdiv = (\<lambda>x y. x / y), fmul = (\<lambda>x y. x * y)\<rparr>, rdims = \<lparr>width = 18, height = 36\<rparr>, rtimings = [\<lparr>start = 0, end' = 64, image = \<lparr>placeholder = Some 1, iwidth = 18, iheight = 36\<rparr>\<rparr>], rtotal = 64, rcaptions = [], rsettings = \<lparr>template = Sentence, position = Bottom, fontSize = Medium, fontFamily = ''Inter'', textColor = ''#ffffff'', backgroundColor = ''rgba(0, 0, 0, 0.8)''\<rparr>\<rparr>) (rtotal \<lparr>rhost = \<lparr>measureText = (\<lambda>f s. real (length s) * fpx f / 2), toUpperCase = map (\<lambda>c. if 97 \<le> (of_char c :: nat) \<and> (of_char c :: nat) \<le> 122 then char_of ((of_char c :: nat) - 32) else c), fsub = (\<lambda>x y. x - y), fdiv = (\<lambda>x y. x / y), fmul = (\<lambda>x y. x * y)\<rparr>, rdims = \<lparr>width = 18, height = 36\<rparr>, rtimings = [\<lparr>start = 0, end' = 64, image = \<lparr>placeholder = Some 1, iwidth = 18, iheight = 36\<rparr>\<rparr>], rtotal = 64, rcaptions = [], rsettings = \<lparr>template = Sentence, position = Bottom, fontSize = Medium, fontFamily = ''Inter'', textColor = ''#ffffff'', backgroundColor = ''rgba(0, 0, 0, 0.8)''\<rparr>\<rparr>) (Num 6) 6 = ([], Num 6)
   \<and> reported (fst (animate \<lparr>rhost = \<lparr>measureText = (\<lambda>f s. real (length s) * fpx f / 2), toUpperCase = map (\<lambda>c. if 97 \<le> (of_char c :: nat) \<and> (of_char c :: nat) \<le> 122 then char_of ((of_char c :: nat) - 32) else c), fsub = (\<lambda>x y. x - y), fdiv = (\<lambda>x y. x / y), fmul = (\<lambda>x y. x * y)\<rparr>, rdims = \<lparr>width = 18, height = 36\<rparr>, rtimings = [\<lparr>start = 0, end' = 64, image = \<lparr>placeholder = Some 1, iwidth = 18, iheight = 36\<rparr>\<rparr>], rtotal = 64, rcaptions = [], rsettings = \<lparr>template = Sentence, position = Bottom, fontSize = Medium, fontFamily = ''Inter'', textColor = ''#ffffff'', backgroundColor = ''rgba(0, 0, 0, 0.8)''\<rparr>\<rparr> True \<lparr>lastProgress = Num (of_int 0), canvasCtx = initialCtx\<rparr> [2, 4, 6, 8, 64])) = [Num 6, Num 12, Num 100]
   \<and> snd (animate \<lparr>rhost = \<lparr>measureText = (\<lambda>f s. real (length s) * fpx f / 2), toUpperCase = map (\<lambda>c. if 97 \<le> (of_char c :: nat) \<and> (of_char c :: nat) \<le> 122 then char_of ((of_char c :: nat) - 32) else c), fsub = (\<lambda>x y. x - y), fdiv = (\<lambda>x y. x / y), fmul = (\<lambda>x y. x * y)\<rparr>, rdims = \<lparr>width = 18, height = 36\<rparr>, rtimings = [\<lparr>start = 0, end' = 64, image = \<lparr>placeholder = Some 1, iwidth = 18, iheight = 36\<rparr>\<rparr>], rtotal = 64, rcaptions = [], rsettings = \<lparr>template = Sentence, position = Bottom, fontSize = Medium, fontFamily = ''Inter'', textColor = ''#ffffff'', backgroundColor = ''rgba(0, 0, 0, 0.8)''\<rparr>\<rparr> True \<lparr>lastProgress = Num (of_int 0), canvasCtx = initialCtx\<rparr> [2, 4, 6, 8, 64]) = Stopped"
    by code_simp
  show ?thesis
    using progress_granularity [of "\<lparr>rhost = \<lparr>measureText = (\<lambda>f s. real (length s) * fpx f / 2), toUpperCase = map (\<lambda>c. if 97 \<le> (of_char c :: nat) \<and> (of_char c :: nat) \<le> 122 then char_of ((of_char c :: nat) - 32) else c), fsub = (\<lambda>x y. x - y), fdiv = (\<lambda>x y. x / y), fmul = (\<lambda>x y. x * y)\<rparr>, rdims = \<lparr>width = 18, height = 36\<rparr>, rtimings = [\<lparr>start = 0, end' = 64, image = \<lparr>placeholder = Some 1, iwidth = 18, iheight = 36\<rparr>\<rparr>], rtotal = 64, rcaptions = [], rsettings = \<lparr>template = Sentence, position = Bottom, fontSize = Medium, fontFamily = ''Inter'', textColor = ''#ffffff'', backgroundColor = ''rgba(0, 0, 0, 0.8)''\<rparr>\<rparr>" "\<lparr>lastProgress = Num (of_int 0), canvasCtx = initialCtx\<rparr>" 0 4 True "[2, 4, 6, 8, 64]"]
    by - (rule ev)
qed

text \<open>
  A tick at which the percentage is exactly 4 above the last report sends nothing: with a
  total duration of 64, at an elapsed time of 3 after a last report of 0 the quotient is
  \<open>3 / 64\<close> and the product \<open>4.6875\<close>, both exact in double precision.
\<close>

theorem progress_counterexample:
  "progressPercentAt \<lparr>measureText = (\<lambda>f s. real (length s) * fpx f / 2), toUpperCase = map (\<lambda>c. if 97 \<le> (of_char c :: nat) \<and> (of_char c :: nat) \<le> 122 then char_of ((of_char c :: nat) - 32) else c), fsub = (\<lambda>x y. x - y), fdiv = (\<lambda>x y. x / y), fmul = (\<lambda>x y. x * y)\<rparr> 64 3 = Num 4 \<and> fst (reportProgress \<lparr>measureText = (\<lambda>f s. real (length s) * fpx f / 2), toUpperCase = map (\<lambda>c. if 97 \<le> (of_char c :: nat) \<and> (of_char c :: nat) \<le> 122 then char_of ((of_char c :: nat) - 32) else c), fsub = (\<lambda>x y. x - y), fdiv = (\<lambda>x y. x / y), fmul = (\<lambda>x y. x * y)\<rparr> 64 (Num 0) 3) = []"
  by (simp add: reportProgress_def progressPercentAt_def Let_def)

section \<open>Properties: cover scaling\<close>

lemma dims_pos: "0 < width (load ar) \<and> 0 < height (load ar)"
  by (cases ar) (simp_all add: load_def ASPECT_RATIO_DIMS_def)

lemma coverRect_wide:
  assumes "0 < iwidth img" "0 < iheight img" "0 < width d" "0 < height d"
    and "real (width d) / real (height d) < real (iwidth img) / real (iheight img)"
  shows "coverRect d img =
           \<lparr>drawX = Num ((real (width d) - real (height d) * (real (iwidth img) / real (iheight img))) / 2),
            drawY = Num 0,
            drawWidth = Num (real (height d) * (real (iwidth img) / real (iheight img))),
            drawHeight = Num (real (height d))\<rparr>"
  using assms by (simp add: coverRect_def Let_def jssub_def)

lemma coverRect_tall:
  assumes "0 < iwidth img" "0 < iheight img" "0 < width d" "0 < height d"
    and "\<not> real (width d) / real (height d) < real (iwidth img) / real (iheight img)"
  shows "coverRect d img =
           \<lparr>drawX = Num 0,
            drawY = Num ((real (height d) - real (width d) / (real (iwidth img) / real (iheight img))) / 2),
            drawWidth = Num (real (width d)),
            drawHeight = Num (real (width d) / (real (iwidth img) / real (iheight img)))\<rparr>"
  using assms by (simp add: coverRect_def Let_def jssub_def)

lemma cover_wide_arith:
  fixes W H a :: real
  assumes "0 < W" "0 < H" "0 < a" "W / H < a"
  shows "(W - H * a) / 2 \<le> 0" "W \<le> (W - H * a) / 2 + H * a" "H * a / H = a" "0 < H * a"
proof -
  have "W < H * a" using assms(2,4) by (simp add: pos_divide_less_eq mult.commute)
  then show "(W - H * a) / 2 \<le> 0" "W \<le> (W - H * a) / 2 + H * a" by (simp_all add: field_simps)
  show "H * a / H = a" using assms(2) by simp
  show "0 < H * a" using assms(2,3) by simp
qed

lemma cover_tall_arith:
  fixes W H a :: real
  assumes "0 < W" "0 < H" "0 < a" "\<not> W / H < a"
  shows "(H - W / a) / 2 \<le> 0" "H \<le> (H - W / a) / 2 + W / a" "W / (W / a) = a" "0 < W / a"
proof -
  have "a * H \<le> W" using assms(2,4) by (simp add: pos_le_divide_eq not_less)
  then have "H \<le> W / a" using assms(3) by (simp add: pos_le_divide_eq mult.commute)
  then show "(H - W / a) / 2 \<le> 0" "H \<le> (H - W / a) / 2 + W / a" by (simp_all add: field_simps)
  show "W / (W / a) = a" using assms(1,3) by simp
  show "0 < W / a" using assms(1,3) by simp
qed

text \<open>
  Claim C8. For an image of positive width and height and each of the three output
  sizes, frame composition draws the image in a rectangle of finite coordinates: if the
  image's aspect ratio is greater than the output's, the rectangle is as high as the
  output, starts at \<open>y = 0\<close> and is centred horizontally; otherwise it is as wide as the
  output, starts at \<open>x = 0\<close> and is centred vertically. In both cases the rectangle covers
  the whole output surface and has the image's aspect ratio.
\<close>

theorem cover_scaling:
  assumes "0 < iwidth img" and "0 < iheight img"
  shows "\<exists>x y w h.
           drawImageCover (load ar) ctx img = DrawImage ctx img (Num x) (Num y) (Num w) (Num h)
         \<and> (real (width (load ar)) / real (height (load ar)) < real (iwidth img) / real (iheight img)
              \<longrightarrow> h = real (height (load ar)) \<and> y = 0 \<and> x = (real (width (load ar)) - w) / 2)
         \<and> (\<not> real (width (load ar)) / real (height (load ar)) < real (iwidth img) / real (iheight img)
              \<longrightarrow> w = real (width (load ar)) \<and> x = 0 \<and> y = (real (height (load ar)) - h) / 2)
         \<and> x \<le> 0 \<and> y \<le> 0
         \<and> real (width (load ar)) \<le> x + w \<and> real (height (load ar)) \<le> y + h
         \<and> 0 < w \<and> 0 < h \<and> w / h = real (iwidth img) / real (iheight img)"
proof -
  let ?W = "real (width (load ar))" and ?H = "real (height (load ar))"
  let ?a = "real (iwidth img) / real (iheight img)"
  have pos: "0 < width (load ar)" "0 < height (load ar)" using dims_pos[of ar] by simp_all
  then have rp: "0 < ?W" "0 < ?H" by simp_all
  have a: "0 < ?a" using assms by simp
  show ?thesis
  proof (cases "?W / ?H < ?a")
    case True
    have r: "coverRect (load ar) img =
           \<lparr>drawX = Num ((?W - ?H * ?a) / 2), drawY = Num 0,
            drawWidth = Num (?H * ?a), drawHeight = Num ?H\<rparr>"
      by (rule coverRect_wide[OF assms pos True])
    have d: "drawImageCover (load ar) ctx img
               = DrawImage ctx img (Num ((?W - ?H * ?a) / 2)) (Num 0) (Num (?H * ?a)) (Num ?H)"
      unfolding drawImageCover_def r by (simp add: Let_def)
    show ?thesis
      apply (rule exI[of _ "(?W - ?H * ?a) / 2"], rule exI[of _ 0])
      apply (rule exI[of _ "?H * ?a"], rule exI[of _ ?H])
      using d True rp cover_wide_arith[OF rp a True] by simp
  next
    case False
    have r: "coverRect (load ar) img =
           \<lparr>drawX = Num 0, drawY = Num ((?H - ?W / ?a) / 2),
            drawWidth = Num ?W, drawHeight = Num (?W / ?a)\<rparr>"
      by (rule coverRect_tall[OF assms pos False])
    have d: "drawImageCover (load ar) ctx img
               = DrawImage ctx img (Num 0) (Num ((?H - ?W / ?a) / 2)) (Num ?W) (Num (?W / ?a))"
      unfolding drawImageCover_def r by (simp add: Let_def)
    show ?thesis
      apply (rule exI[of _ 0], rule exI[of _ "(?H - ?W / ?a) / 2"])
      apply (rule exI[of _ ?W], rule exI[of _ "?W / ?a"])
      using d False rp cover_tall_arith[OF rp a False] by simp
  qed
qed

theorem cover_scaling_witness:
  "0 < iwidth \<lparr>placeholder = None, iwidth = 1920, iheight = 1080\<rparr> \<and> 0 < iheight \<lparr>placeholder = None, iwidth = 1920, iheight = 1080\<rparr>
   \<and> drawImageCover (load AR_1_1) initialCtx \<lparr>placeholder = None, iwidth = 1920, iheight = 1080\<rparr>
       = DrawImage initialCtx \<lparr>placeholder = None, iwidth = 1920, iheight = 1080\<rparr> (Num (- 420)) (Num 0) (Num 1920) (Num 1080)"
proof -
  have ev: "0 < iwidth \<lparr>placeholder = None, iwidth = 1920, iheight = 1080\<rparr> \<and> 0 < iheight \<lparr>placeholder = None, iwidth = 1920, iheight = 1080\<rparr>
   \<and> drawImageCover (load AR_1_1) initialCtx \<lparr>placeholder = None, iwidth = 1920, iheight = 1080\<rparr>
       = DrawImage initialCtx \<lparr>placeholder = None, iwidth = 1920, iheight = 1080\<rparr> (Num (- 420)) (Num 0) (Num 1920) (Num 1080)"
    by (simp add: drawImageCover_def coverRect_def load_def ASPECT_RATIO_DIMS_def Let_def jssub_def)
  show ?thesis
    using cover_scaling [of "\<lparr>placeholder = None, iwidth = 1920, iheight = 1080\<rparr>" AR_1_1 initialCtx]
    by - (rule ev)
qed

section \<open>Properties: caption progress and word indices\<close>


lemma splitWs_nonempty: "splitWs s \<noteq> []"
  by (induction s rule: splitWs.induct) (auto split: list.splits)

lemma captionProgress_eq:
  assumes "fsub h (endTime c) (startTime c) \<noteq> 0"
  shows "captionProgress h c t
         = Num (fdiv h (fsub h t (startTime c)) (fsub h (endTime c) (startTime c)))"
  using assms by (simp add: captionProgress_def)


lemma clamped_floor_index:
  fixes q :: real
  assumes "0 \<le> q" "0 < n"
  shows "jsmin (jsfloor (Num q)) (Num (real n - 1)) = Num (of_int (min \<lfloor>q\<rfloor> (int n - 1)))"
    and "0 \<le> min \<lfloor>q\<rfloor> (int n - 1)"
    and "min \<lfloor>q\<rfloor> (int n - 1) < int n"
proof -
  have f: "0 \<le> \<lfloor>q\<rfloor>" using assms(1) by simp
  show "jsmin (jsfloor (Num q)) (Num (real n - 1)) = Num (of_int (min \<lfloor>q\<rfloor> (int n - 1)))"
    using assms(2) by (simp add: min_def of_nat_diff)
  show "0 \<le> min \<lfloor>q\<rfloor> (int n - 1)" using f assms(2) by simp
  show "min \<lfloor>q\<rfloor> (int n - 1) < int n" by simp
qed

lemma wordByWordIdx_eq:
  assumes "fsub h (endTime c) (startTime c) \<noteq> 0"
    and "0 \<le> fmul h (fdiv h (fsub h t (startTime c)) (fsub h (endTime c) (startTime c)))
                       (real (length (splitWs (text' c))))"
  shows "wordByWordIdx h c t
         = Num (of_int (min \<lfloor>fmul h (fdiv h (fsub h t (startTime c))
                                              (fsub h (endTime c) (startTime c)))
                                    (real (length (splitWs (text' c))))\<rfloor>
                            (int (length (splitWs (text' c))) - 1)))"
proof -
  have m: "0 < length (splitWs (text' c))" using splitWs_nonempty[of "text' c"] by simp
  show ?thesis
    using clamped_floor_index(1)[OF assms(2) m]
    by (simp add: wordByWordIdx_def Let_def captionProgress_eq[OF assms(1)])
qed



section \<open>Properties: the sentence and minimal templates\<close>

lemma wrapAllLoop_prefix: "\<exists>rest. wrapAllLoop mt mw lines cur ws = lines @ rest"
proof (induction ws arbitrary: lines cur)
  case Nil
  then show ?case by simp
next
  case (Cons w ws)
  show ?case
  proof (cases "mt (testLineOf cur w) > mw \<and> cur \<noteq> []")
    case True
    obtain rest where "wrapAllLoop mt mw (lines @ [cur]) w ws = (lines @ [cur]) @ rest"
      using Cons.IH by blast
    then show ?thesis using True by simp
  next
    case False
    then show ?thesis using Cons.IH[of lines "testLineOf cur w"] by auto
  qed
qed

lemma wrapLoop_take2:
  "length lines < 2 \<Longrightarrow>
   (case wrapLoop mt mw lines cur ws of
      (l, c) \<Rightarrow> if c \<noteq> [] \<and> length l < 2 then l @ [c] else l)
   = take 2 (wrapAllLoop mt mw lines cur ws)"
proof (induction ws arbitrary: lines cur)
  case Nil
  then show ?case by simp
next
  case (Cons w ws)
  show ?case
  proof (cases "mt (testLineOf cur w) > mw \<and> cur \<noteq> []")
    case over: True
    show ?thesis
    proof (cases "length (lines @ [cur]) \<ge> 2")
      case True
      then have two: "length (lines @ [cur]) = 2" using Cons.prems by simp
      obtain rest where "wrapAllLoop mt mw (lines @ [cur]) w ws = (lines @ [cur]) @ rest"
        using wrapAllLoop_prefix by blast
      then have "take 2 (wrapAllLoop mt mw lines cur (w # ws)) = lines @ [cur]"
        using over two by simp
      moreover have "wrapLoop mt mw lines cur (w # ws) = (lines @ [cur], w)"
        using over True by simp
      ultimately show ?thesis using two by simp
    next
      case False
      then have l0: "lines = []" by (cases lines) auto
      have "length ([] @ [cur]) < 2" by simp
      from Cons.IH[OF this, of w] over l0 show ?thesis by simp
    qed
  next
    case False
    from Cons.IH[OF Cons.prems, of "testLineOf cur w"] False show ?thesis by auto
  qed
qed

lemma wrapLines_take2: "wrapLines mt mw txt = take 2 (wrapAll mt mw txt)"
  using wrapLoop_take2[of "[]" mt mw "[]" "splitOn CHR '' '' txt"]
  by (simp add: wrapLines_def wrapAll_def)

lemma sentenceTextOps_length: "length (sentenceTextOps cx d y lh n i lines) = length lines"
  by (induction lines arbitrary: i) auto

lemma sentenceTextOps_nth:
  "k < length lines \<Longrightarrow>
   \<exists>x y'. sentenceTextOps cx d y lh n i lines ! k = FillText cx (lines ! k) x y'"
proof (induction lines arbitrary: i k)
  case Nil
  then show ?case by simp
next
  case (Cons l lines)
  show ?case
  proof (cases k)
    case 0
    then show ?thesis unfolding sentenceTextOps.simps by (metis nth_Cons_0)
  next
    case (Suc k')
    then have "k' < length lines" using Cons.prems by simp
    from Cons.IH[OF this, of "i + 1"] Suc show ?thesis by simp
  qed
qed

lemma slice_prefix_length: "length (slice xs 0 (int n)) \<le> n"
  by (simp add: slice_def relIndex_def Let_def)

text \<open>
  Claim C7. For every caption, settings and time, the sentence template wraps its
  visible text into at most 2 lines, which are the first two lines of the unlimited
  greedy wrapping of that text (what would go on a third line is dropped from the tail),
  and draws one text for each of these lines after the backdrop; the minimal template
  draws a single text of at most 50 characters. This holds whatever the host's text
  measurement and arithmetic are.
\<close>

theorem sentence_minimal_limits:
  "length (sentenceLines h d c st t) \<le> 2
   \<and> sentenceLines h d c st t
       = take 2 (wrapAll (measureText h (mkFont ''bold'' (getFontSize d (fontSize st)) (fontFamily st)))
                   (real (width d) * 0.85)
                   (join '' '' (sliceNum (splitOn CHR '' '' (text' c))
                                  (sentenceStartWordIdx h c t) (sentenceEndWordIdx h c t))))
   \<and> (\<exists>bg texts. fst (drawSentenceCaption h d ctx c st t) = bg # texts
          \<and> length texts = length (sentenceLines h d c st t)
          \<and> (\<forall>k<length texts. \<exists>cx x y. texts ! k = FillText cx (sentenceLines h d c st t ! k) x y))
   \<and> (\<exists>cx txt x y. fst (drawMinimalCaption h d ctx c st t) = [FillText cx txt x y]
          \<and> txt = minimalText h c t \<and> length txt \<le> 50)"
proof -
  have eq: "sentenceLines h d c st t
       = take 2 (wrapAll (measureText h (mkFont ''bold'' (getFontSize d (fontSize st)) (fontFamily st)))
                   (real (width d) * 0.85)
                   (join '' '' (sliceNum (splitOn CHR '' '' (text' c))
                                  (sentenceStartWordIdx h c t) (sentenceEndWordIdx h c t))))"
    by (simp add: sentenceLines_def Let_def wrapLines_take2)
  then have le: "length (sentenceLines h d c st t) \<le> 2" by simp
  have "\<exists>bg cx y lh. fst (drawSentenceCaption h d ctx c st t)
          = bg # sentenceTextOps cx d y lh (length (sentenceLines h d c st t)) 0
                   (sentenceLines h d c st t)"
    by (simp add: drawSentenceCaption_def Let_def) blast
  then obtain bg cx y lh where ops: "fst (drawSentenceCaption h d ctx c st t)
          = bg # sentenceTextOps cx d y lh (length (sentenceLines h d c st t)) 0
                   (sentenceLines h d c st t)" by blast
  let ?texts = "sentenceTextOps cx d y lh (length (sentenceLines h d c st t)) 0
                   (sentenceLines h d c st t)"
  have tl: "length ?texts = length (sentenceLines h d c st t)" by (rule sentenceTextOps_length)
  have tn: "\<forall>k<length ?texts. \<exists>cx x y. ?texts ! k = FillText cx (sentenceLines h d c st t ! k) x y"
    using sentenceTextOps_nth[of _ "sentenceLines h d c st t" cx d y lh] tl by metis
  have S: "\<exists>bg texts. fst (drawSentenceCaption h d ctx c st t) = bg # texts
          \<and> length texts = length (sentenceLines h d c st t)
          \<and> (\<forall>k<length texts. \<exists>cx x y. texts ! k = FillText cx (sentenceLines h d c st t ! k) x y)"
    using ops tl tn by blast
  have "length (minimalText h c t) \<le> 50"
    using slice_prefix_length[of _ 50] by (simp add: minimalText_def Let_def)
  moreover have "\<exists>cx x y. fst (drawMinimalCaption h d ctx c st t) = [FillText cx (minimalText h c t) x y]"
    unfolding drawMinimalCaption_def Let_def fst_conv by blast
  ultimately have M: "\<exists>cx txt x y. fst (drawMinimalCaption h d ctx c st t) = [FillText cx txt x y]
          \<and> txt = minimalText h c t \<and> length txt \<le> 50"
    by blast
  show ?thesis using le eq S M by blast
qed

theorem sentence_minimal_limits_witness:
  "sentenceLines \<lparr>measureText = (\<lambda>f s. real (length s)), toUpperCase = map (\<lambda>c. if 97 \<le> (of_char c :: nat) \<and> (of_char c :: nat) \<le> 122 then char_of ((of_char c :: nat) - 32) else c), fsub = (\<lambda>x y. x - y), fdiv = (\<lambda>x y. x / y), fmul = (\<lambda>x y. x * y)\<rparr> \<lparr>width = 10, height = 10\<rparr> \<lparr>startTime = 0, endTime = 2, text' = ''aa bb cc dd ee ff gg hh'', words = None\<rparr> \<lparr>template = Sentence, position = Bottom, fontSize = Medium, fontFamily = ''Inter'', textColor = ''#ffffff'', backgroundColor = ''rgba(0, 0, 0, 0.8)''\<rparr> 1 = [''aa bb cc'', ''dd ee ff'']
   \<and> wrapAll (measureText \<lparr>measureText = (\<lambda>f s. real (length s)), toUpperCase = map (\<lambda>c. if 97 \<le> (of_char c :: nat) \<and> (of_char c :: nat) \<le> 122 then char_of ((of_char c :: nat) - 32) else c), fsub = (\<lambda>x y. x - y), fdiv = (\<lambda>x y. x / y), fmul = (\<lambda>x y. x * y)\<rparr> (mkFont ''bold'' (getFontSize \<lparr>width = 10, height = 10\<rparr> Medium) ''Inter'')) (real (width \<lparr>width = 10, height = 10\<rparr>) * 0.85)
        ''aa bb cc dd ee ff gg hh'' = [''aa bb cc'', ''dd ee ff'', ''gg hh'']
   \<and> minimalText \<lparr>measureText = (\<lambda>f s. real (length s)), toUpperCase = map (\<lambda>c. if 97 \<le> (of_char c :: nat) \<and> (of_char c :: nat) \<le> 122 then char_of ((of_char c :: nat) - 32) else c), fsub = (\<lambda>x y. x - y), fdiv = (\<lambda>x y. x / y), fmul = (\<lambda>x y. x * y)\<rparr> \<lparr>startTime = 0, endTime = 2, text' = ''aa bb cc dd ee ff gg hh'', words = None\<rparr> 1 = ''bb cc dd ee ff gg''"
proof -
  have ev: "sentenceLines \<lparr>measureText = (\<lambda>f s. real (length s)), toUpperCase = map (\<lambda>c. if 97 \<le> (of_char c :: nat) \<and> (of_char c :: nat) \<le> 122 then char_of ((of_char c :: nat) - 32) else c), fsub = (\<lambda>x y. x - y), fdiv = (\<lambda>x y. x / y), fmul = (\<lambda>x y. x * y)\<rparr> \<lparr>width = 10, height = 10\<rparr> \<lparr>startTime = 0, endTime = 2, text' = ''aa bb cc dd ee ff gg hh'', words = None\<rparr> \<lparr>template = Sentence, position = Bottom, fontSize = Medium, fontFamily = ''Inter'', textColor = ''#ffffff'', backgroundColor = ''rgba(0, 0, 0, 0.8)''\<rparr> 1 = [''aa bb cc'', ''dd ee ff'']
   \<and> wrapAll (measureText \<lparr>measureText = (\<lambda>f s. real (length s)), toUpperCase = map (\<lambda>c. if 97 \<le> (of_char c :: nat) \<and> (of_char c :: nat) \<le> 122 then char_of ((of_char c :: nat) - 32) else c), fsub = (\<lambda>x y. x - y), fdiv = (\<lambda>x y. x / y), fmul = (\<lambda>x y. x * y)\<rparr> (mkFont ''bold'' (getFontSize \<lparr>width = 10, height = 10\<rparr> Medium) ''Inter'')) (real (width \<lparr>width = 10, height = 10\<rparr>) * 0.85)
        ''aa bb cc dd ee ff gg hh'' = [''aa bb cc'', ''dd ee ff'', ''gg hh'']
   \<and> minimalText \<lparr>measureText = (\<lambda>f s. real (length s)), toUpperCase = map (\<lambda>c. if 97 \<le> (of_char c :: nat) \<and> (of_char c :: nat) \<le> 122 then char_of ((of_char c :: nat) - 32) else c), fsub = (\<lambda>x y. x - y), fdiv = (\<lambda>x y. x / y), fmul = (\<lambda>x y. x * y)\<rparr> \<lparr>startTime = 0, endTime = 2, text' = ''aa bb cc dd ee ff gg hh'', words = None\<rparr> 1 = ''bb cc dd ee ff gg''"
    by code_simp
  show ?thesis
    using sentence_minimal_limits [of "\<lparr>measureText = (\<lambda>f s. real (length s)), toUpperCase = map (\<lambda>c. if 97 \<le> (of_char c :: nat) \<and> (of_char c :: nat) \<le> 122 then char_of ((of_char c :: nat) - 32) else c), fsub = (\<lambda>x y. x - y), fdiv = (\<lambda>x y. x / y), fmul = (\<lambda>x y. x * y)\<rparr>" "\<lparr>width = 10, height = 10\<rparr>" "\<lparr>startTime = 0, endTime = 2, text' = ''aa bb cc dd ee ff gg hh'', words = None\<rparr>" "\<lparr>template = Sentence, position = Bottom, fontSize = Medium, fontFamily = ''Inter'', textColor = ''#ffffff'', backgroundColor = ''rgba(0, 0, 0, 0.8)''\<rparr>" 1 initialCtx]
    by - (rule ev)
qed

section \<open>Properties: the word-by-word template\<close>

lemma wordByWord_timed:
  assumes "words c = Some ws" "k < length ws"
    and "wstart (ws ! k) \<le> t \<and> t < wend (ws ! k)"
    and "\<forall>j<k. \<not> (wstart (ws ! j) \<le> t \<and> t < wend (ws ! j))"
  shows "wordByWordCurrent h c t = toUpperCase h (word (ws ! k))"
proof -
  have "find (\<lambda>w. t \<ge> wstart w \<and> t < wend w) ws = Some (ws ! k)"
    unfolding find_Some_iff using assms(2,3,4) by blast
  moreover obtain w ws' where "ws = w # ws'" using assms(2) by (cases ws) auto
  ultimately show ?thesis using assms(1) by (simp add: wordByWordCurrent_def)
qed

lemma wordByWord_gap:
  assumes "words c = Some ws" "ws \<noteq> []"
    and "\<forall>j<length ws. \<not> (wstart (ws ! j) \<le> t \<and> t < wend (ws ! j))"
  shows "wordByWordCurrent h c t = []"
proof -
  have "find (\<lambda>w. t \<ge> wstart w \<and> t < wend w) ws = None"
    unfolding find_None_iff using assms(3) by (auto simp: in_set_conv_nth)
  moreover obtain w ws' where "ws = w # ws'" using assms(2) by (cases ws) auto
  ultimately show ?thesis using assms(1) by (simp add: wordByWordCurrent_def)
qed

lemma wordByWord_untimed:
  assumes "words c = None \<or> words c = Some []" "startTime c \<le> t" "t < endTime c"
    and "\<forall>a b. b \<le> a \<longrightarrow> 0 \<le> fsub h a b" "\<forall>a b. b < a \<longrightarrow> 0 < fsub h a b"
    and "\<forall>a b. 0 \<le> a \<and> 0 < b \<longrightarrow> 0 \<le> fdiv h a b"
    and "\<forall>x y. 0 \<le> x \<and> 0 \<le> y \<longrightarrow> 0 \<le> fmul h x y"
  shows "(\<exists>k. wordByWordIdx h c t = Num (of_int k)
                \<and> k = min \<lfloor>fmul h (fdiv h (fsub h t (startTime c)) (fsub h (endTime c) (startTime c)))
                                  (real (length (splitWs (text' c))))\<rfloor>
                          (int (length (splitWs (text' c))) - 1)
                \<and> 0 \<le> k \<and> k < int (length (splitWs (text' c)))
                \<and> wordByWordCurrent h c t = toUpperCase h (splitWs (text' c) ! nat k))"
proof -
  let ?a = "fsub h t (startTime c)"
  let ?b = "fsub h (endTime c) (startTime c)"
  let ?n = "length (splitWs (text' c))"
  let ?r = "fmul h (fdiv h ?a ?b) (real ?n)"
  let ?k = "min \<lfloor>?r\<rfloor> (int ?n - 1)"
  have a: "0 \<le> ?a" using assms(2,4) by blast
  have "startTime c < endTime c" using assms(2,3) by simp
  then have b: "0 < ?b" using assms(5) by blast
  then have b0: "?b \<noteq> 0" by simp
  have p: "0 \<le> fdiv h ?a ?b" using assms(6) a b by blast
  have r: "0 \<le> ?r" using assms(7) p by simp
  have n: "0 < ?n" using splitWs_nonempty[of "text' c"] by simp
  note ww = clamped_floor_index[OF r n]
  have idx: "wordByWordIdx h c t = Num (of_int ?k)" by (rule wordByWordIdx_eq[OF b0 r])
  have "elemOrEmpty (splitWs (text' c)) (Num (of_int ?k)) = splitWs (text' c) ! nat ?k"
    using ww(2,3) by simp
  then have cur: "wordByWordCurrent h c t = toUpperCase h (splitWs (text' c) ! nat ?k)"
    using assms(1) idx by (auto simp: wordByWordCurrent_def)
  show ?thesis using idx ww(2,3) cur by blast
qed

lemma drawWordByWord_ops:
  "if wordByWordCurrent h c t = [] then fst (drawWordByWordCaption h d ctx c st t) = []
          else (\<exists>cx. fpx (font cx) = getFontSize d (fontSize st) * 2
                  \<and> fst (drawWordByWordCaption h d ctx c st t)
                      = [FillText cx (wordByWordCurrent h c t) (real (width d) / 2)
                            (getYPosition d (position st))])"
  by (simp add: drawWordByWordCaption_def Let_def mkFont_def)

text \<open>
  Claim C6, as the code has it. For a caption and a time \<open>t\<close> in its span, the
  word-by-word template draws nothing when the word it selects, in upper case, is the
  empty string, and otherwise draws exactly one text: the selected word as the host's
  \<^verbatim>\<open>toUpperCase\<close> returns it, at twice the configured font size. With word timings, the
  selected word is the first word whose \<open>[start, end)\<close> holds \<open>t\<close>, and nothing is selected
  (and nothing drawn) when no word's span holds \<open>t\<close>. Without word timings, it is the word
  of the whitespace-split text at the index that the code computes: the floor of the
  product of progress and word count, limited to the last index, where progress is the
  quotient of \<open>t - startTime\<close> by \<open>endTime - startTime\<close>, and differences, quotient and
  product are what the host's double-precision operations deliver. That index is within
  the text whenever these operations keep signs: a difference \<open>a - b\<close> is not negative
  for \<open>b \<le> a\<close> and positive for \<open>b < a\<close>, and quotients and products of non-negative
  numbers are not negative.
\<close>

theorem word_by_word_selection:
  assumes "startTime c \<le> t" and "t < endTime c"
  shows "(if wordByWordCurrent h c t = [] then fst (drawWordByWordCaption h d ctx c st t) = []
          else (\<exists>cx. fpx (font cx) = getFontSize d (fontSize st) * 2
                  \<and> fst (drawWordByWordCaption h d ctx c st t)
                      = [FillText cx (wordByWordCurrent h c t) (real (width d) / 2)
                            (getYPosition d (position st))]))
       \<and> (\<forall>ws. words c = Some ws \<and> ws \<noteq> [] \<longrightarrow>
             (\<forall>k<length ws. wstart (ws ! k) \<le> t \<and> t < wend (ws ! k)
                  \<and> (\<forall>j<k. \<not> (wstart (ws ! j) \<le> t \<and> t < wend (ws ! j)))
                \<longrightarrow> wordByWordCurrent h c t = toUpperCase h (word (ws ! k)))
           \<and> ((\<forall>j<length ws. \<not> (wstart (ws ! j) \<le> t \<and> t < wend (ws ! j)))
                \<longrightarrow> wordByWordCurrent h c t = []))
       \<and> ((words c = None \<or> words c = Some [])
             \<and> (\<forall>a b. b \<le> a \<longrightarrow> 0 \<le> fsub h a b) \<and> (\<forall>a b. b < a \<longrightarrow> 0 < fsub h a b)
             \<and> (\<forall>a b. 0 \<le> a \<and> 0 < b \<longrightarrow> 0 \<le> fdiv h a b)
             \<and> (\<forall>x y. 0 \<le> x \<and> 0 \<le> y \<longrightarrow> 0 \<le> fmul h x y)
           \<longrightarrow> (\<exists>k. wordByWordIdx h c t = Num (of_int k)
                \<and> k = min \<lfloor>fmul h (fdiv h (fsub h t (startTime c)) (fsub h (endTime c) (startTime c)))
                                  (real (length (splitWs (text' c))))\<rfloor>
                          (int (length (splitWs (text' c))) - 1)
                \<and> 0 \<le> k \<and> k < int (length (splitWs (text' c)))
                \<and> wordByWordCurrent h c t = toUpperCase h (splitWs (text' c) ! nat k)))"
proof (intro conjI)
  show "if wordByWordCurrent h c t = [] then fst (drawWordByWordCaption h d ctx c st t) = []
          else (\<exists>cx. fpx (font cx) = getFontSize d (fontSize st) * 2
                  \<and> fst (drawWordByWordCaption h d ctx c st t)
                      = [FillText cx (wordByWordCurrent h c t) (real (width d) / 2)
                            (getYPosition d (position st))])"
    by (rule drawWordByWord_ops)
next
  show "(\<forall>ws. words c = Some ws \<and> ws \<noteq> [] \<longrightarrow>
             (\<forall>k<length ws. wstart (ws ! k) \<le> t \<and> t < wend (ws ! k)
                  \<and> (\<forall>j<k. \<not> (wstart (ws ! j) \<le> t \<and> t < wend (ws ! j)))
                \<longrightarrow> wordByWordCurrent h c t = toUpperCase h (word (ws ! k)))
           \<and> ((\<forall>j<length ws. \<not> (wstart (ws ! j) \<le> t \<and> t < wend (ws ! j)))
                \<longrightarrow> wordByWordCurrent h c t = []))"
    using wordByWord_timed[of c _ _ t h] wordByWord_gap[of c _ t h] by blast
next
  show "((words c = None \<or> words c = Some [])
             \<and> (\<forall>a b. b \<le> a \<longrightarrow> 0 \<le> fsub h a b) \<and> (\<forall>a b. b < a \<longrightarrow> 0 < fsub h a b)
             \<and> (\<forall>a b. 0 \<le> a \<and> 0 < b \<longrightarrow> 0 \<le> fdiv h a b)
             \<and> (\<forall>x y. 0 \<le> x \<and> 0 \<le> y \<longrightarrow> 0 \<le> fmul h x y)
           \<longrightarrow> (\<exists>k. wordByWordIdx h c t = Num (of_int k)
                \<and> k = min \<lfloor>fmul h (fdiv h (fsub h t (startTime c)) (fsub h (endTime c) (startTime c)))
                                  (real (length (splitWs (text' c))))\<rfloor>
                          (int (length (splitWs (text' c))) - 1)
                \<and> 0 \<le> k \<and> k < int (length (splitWs (text' c)))
                \<and> wordByWordCurrent h c t = toUpperCase h (splitWs (text' c) ! nat k)))"
    using wordByWord_untimed[OF _ assms, of h] by blast
qed

theorem word_by_word_selection_witness:
  "startTime \<lparr>startTime = 0, endTime = 12 / 10, text' = ''Hello world'', words = Some [\<lparr>word = ''Hello'', wstart = 0, wend = 5 / 10\<rparr>, \<lparr>word = ''world'', wstart = 5 / 10, wend = 12 / 10\<rparr>]\<rparr> \<le> 3 / 10 \<and> 3 / 10 < endTime \<lparr>startTime = 0, endTime = 12 / 10, text' = ''Hello world'', words = Some [\<lparr>word = ''Hello'', wstart = 0, wend = 5 / 10\<rparr>, \<lparr>word = ''world'', wstart = 5 / 10, wend = 12 / 10\<rparr>]\<rparr>
   \<and> wordByWordCurrent \<lparr>measureText = (\<lambda>f s. real (length s) * fpx f / 2), toUpperCase = map (\<lambda>c. if 97 \<le> (of_char c :: nat) \<and> (of_char c :: nat) \<le> 122 then char_of ((of_char c :: nat) - 32) else c), fsub = (\<lambda>x y. x - y), fdiv = (\<lambda>x y. x / y), fmul = (\<lambda>x y. x * y)\<rparr> \<lparr>startTime = 0, endTime = 12 / 10, text' = ''Hello world'', words = Some [\<lparr>word = ''Hello'', wstart = 0, wend = 5 / 10\<rparr>, \<lparr>word = ''world'', wstart = 5 / 10, wend = 12 / 10\<rparr>]\<rparr> (3 / 10) = ''HELLO''
   \<and> map (\<lambda>op. case op of FillText cx txt x y \<Rightarrow> (txt, fpx (font cx)) | _ \<Rightarrow> ([], 0))
        (fst (drawWordByWordCaption \<lparr>measureText = (\<lambda>f s. real (length s) * fpx f / 2), toUpperCase = map (\<lambda>c. if 97 \<le> (of_char c :: nat) \<and> (of_char c :: nat) \<le> 122 then char_of ((of_char c :: nat) - 32) else c), fsub = (\<lambda>x y. x - y), fdiv = (\<lambda>x y. x / y), fmul = (\<lambda>x y. x * y)\<rparr> \<lparr>width = 18, height = 36\<rparr> initialCtx \<lparr>startTime = 0, endTime = 12 / 10, text' = ''Hello world'', words = Some [\<lparr>word = ''Hello'', wstart = 0, wend = 5 / 10\<rparr>, \<lparr>word = ''world'', wstart = 5 / 10, wend = 12 / 10\<rparr>]\<rparr> \<lparr>template = WordByWord, position = Center, fontSize = Medium, fontFamily = ''Inter'', textColor = ''#ffffff'', backgroundColor = ''rgba(0, 0, 0, 0.8)''\<rparr> (3 / 10)))
       = [(''HELLO'', 2)]
   \<and> startTime \<lparr>startTime = 0, endTime = 2, text' = ''one two  three'', words = None\<rparr> \<le> 1 \<and> 1 < endTime \<lparr>startTime = 0, endTime = 2, text' = ''one two  three'', words = None\<rparr>
   \<and> splitWs (text' \<lparr>startTime = 0, endTime = 2, text' = ''one two  three'', words = None\<rparr>) = [''one'', ''two'', ''three'']
   \<and> wordByWordIdx \<lparr>measureText = (\<lambda>f s. real (length s) * fpx f / 2), toUpperCase = map (\<lambda>c. if 97 \<le> (of_char c :: nat) \<and> (of_char c :: nat) \<le> 122 then char_of ((of_char c :: nat) - 32) else c), fsub = (\<lambda>x y. x - y), fdiv = (\<lambda>x y. x / y), fmul = (\<lambda>x y. x * y)\<rparr> \<lparr>startTime = 0, endTime = 2, text' = ''one two  three'', words = None\<rparr> 1 = Num 1
   \<and> wordByWordCurrent \<lparr>measureText = (\<lambda>f s. real (length s) * fpx f / 2), toUpperCase = map (\<lambda>c. if 97 \<le> (of_char c :: nat) \<and> (of_char c :: nat) \<le> 122 then char_of ((of_char c :: nat) - 32) else c), fsub = (\<lambda>x y. x - y), fdiv = (\<lambda>x y. x / y), fmul = (\<lambda>x y. x * y)\<rparr> \<lparr>startTime = 0, endTime = 2, text' = ''one two  three'', words = None\<rparr> 1 = ''TWO''"
proof -
  have ev: "startTime \<lparr>startTime = 0, endTime = 12 / 10, text' = ''Hello world'', words = Some [\<lparr>word = ''Hello'', wstart = 0, wend = 5 / 10\<rparr>, \<lparr>word = ''world'', wstart = 5 / 10, wend = 12 / 10\<rparr>]\<rparr> \<le> 3 / 10 \<and> 3 / 10 < endTime \<lparr>startTime = 0, endTime = 12 / 10, text' = ''Hello world'', words = Some [\<lparr>word = ''Hello'', wstart = 0, wend = 5 / 10\<rparr>, \<lparr>word = ''world'', wstart = 5 / 10, wend = 12 / 10\<rparr>]\<rparr>
   \<and> wordByWordCurrent \<lparr>measureText = (\<lambda>f s. real (length s) * fpx f / 2), toUpperCase = map (\<lambda>c. if 97 \<le> (of_char c :: nat) \<and> (of_char c :: nat) \<le> 122 then char_of ((of_char c :: nat) - 32) else c), fsub = (\<lambda>x y. x - y), fdiv = (\<lambda>x y. x / y), fmul = (\<lambda>x y. x * y)\<rparr> \<lparr>startTime = 0, endTime = 12 / 10, text' = ''Hello world'', words = Some [\<lparr>word = ''Hello'', wstart = 0, wend = 5 / 10\<rparr>, \<lparr>word = ''world'', wstart = 5 / 10, wend = 12 / 10\<rparr>]\<rparr> (3 / 10) = ''HELLO''
   \<and> map (\<lambda>op. case op of FillText cx txt x y \<Rightarrow> (txt, fpx (font cx)) | _ \<Rightarrow> ([], 0))
        (fst (drawWordByWordCaption \<lparr>measureText = (\<lambda>f s. real (length s) * fpx f / 2), toUpperCase = map (\<lambda>c. if 97 \<le> (of_char c :: nat) \<and> (of_char c :: nat) \<le> 122 then char_of ((of_char c :: nat) - 32) else c), fsub = (\<lambda>x y. x - y), fdiv = (\<lambda>x y. x / y), fmul = (\<lambda>x y. x * y)\<rparr> \<lparr>width = 18, height = 36\<rparr> initialCtx \<lparr>startTime = 0, endTime = 12 / 10, text' = ''Hello world'', words = Some [\<lparr>word = ''Hello'', wstart = 0, wend = 5 / 10\<rparr>, \<lparr>word = ''world'', wstart = 5 / 10, wend = 12 / 10\<rparr>]\<rparr> \<lparr>template = WordByWord, position = Center, fontSize = Medium, fontFamily = ''Inter'', textColor = ''#ffffff'', backgroundColor = ''rgba(0, 0, 0, 0.8)''\<rparr> (3 / 10)))
       = [(''HELLO'', 2)]
   \<and> startTime \<lparr>startTime = 0, endTime = 2, text' = ''one two  three'', words = None\<rparr> \<le> 1 \<and> 1 < endTime \<lparr>startTime = 0, endTime = 2, text' = ''one two  three'', words = None\<rparr>
   \<and> splitWs (text' \<lparr>startTime = 0, endTime = 2, text' = ''one two  three'', words = None\<rparr>) = [''one'', ''two'', ''three'']
   \<and> wordByWordIdx \<lparr>measureText = (\<lambda>f s. real (length s) * fpx f / 2), toUpperCase = map (\<lambda>c. if 97 \<le> (of_char c :: nat) \<and> (of_char c :: nat) \<le> 122 then char_of ((of_char c :: nat) - 32) else c), fsub = (\<lambda>x y. x - y), fdiv = (\<lambda>x y. x / y), fmul = (\<lambda>x y. x * y)\<rparr> \<lparr>startTime = 0, endTime = 2, text' = ''one two  three'', words = None\<rparr> 1 = Num 1
   \<and> wordByWordCurrent \<lparr>measureText = (\<lambda>f s. real (length s) * fpx f / 2), toUpperCase = map (\<lambda>c. if 97 \<le> (of_char c :: nat) \<and> (of_char c :: nat) \<le> 122 then char_of ((of_char c :: nat) - 32) else c), fsub = (\<lambda>x y. x - y), fdiv = (\<lambda>x y. x / y), fmul = (\<lambda>x y. x * y)\<rparr> \<lparr>startTime = 0, endTime = 2, text' = ''one two  three'', words = None\<rparr> 1 = ''TWO''"
    by code_simp
  show ?thesis
    using word_by_word_selection [of "\<lparr>startTime = 0, endTime = 12 / 10, text' = ''Hello world'', words = Some [\<lparr>word = ''Hello'', wstart = 0, wend = 5 / 10\<rparr>, \<lparr>word = ''world'', wstart = 5 / 10, wend = 12 / 10\<rparr>]\<rparr>" "3 / 10" "\<lparr>measureText = (\<lambda>f s. real (length s) * fpx f / 2), toUpperCase = map (\<lambda>c. if 97 \<le> (of_char c :: nat) \<and> (of_char c :: nat) \<le> 122 then char_of ((of_char c :: nat) - 32) else c), fsub = (\<lambda>x y. x - y), fdiv = (\<lambda>x y. x / y), fmul = (\<lambda>x y. x * y)\<rparr>" "\<lparr>width = 18, height = 36\<rparr>" initialCtx "\<lparr>template = WordByWord, position = Center, fontSize = Medium, fontFamily = ''Inter'', textColor = ''#ffffff'', backgroundColor = ''rgba(0, 0, 0, 0.8)''\<rparr>"]
          word_by_word_selection [of "\<lparr>startTime = 0, endTime = 2, text' = ''one two  three'', words = None\<rparr>" 1 "\<lparr>measureText = (\<lambda>f s. real (length s) * fpx f / 2), toUpperCase = map (\<lambda>c. if 97 \<le> (of_char c :: nat) \<and> (of_char c :: nat) \<le> 122 then char_of ((of_char c :: nat) - 32) else c), fsub = (\<lambda>x y. x - y), fdiv = (\<lambda>x y. x / y), fmul = (\<lambda>x y. x * y)\<rparr>" "\<lparr>width = 18, height = 36\<rparr>" initialCtx "\<lparr>template = WordByWord, position = Center, fontSize = Medium, fontFamily = ''Inter'', textColor = ''#ffffff'', backgroundColor = ''rgba(0, 0, 0, 0.8)''\<rparr>"]
    by - (rule ev)
qed

text \<open>
  A caption whose word timings leave a gap: at a time inside the caption's span but
  between two words, the word-by-word template draws no word.
\<close>

theorem word_by_word_gap_counterexample:
  "startTime \<lparr>startTime = 0, endTime = 2, text' = ''Hi there'', words = Some [\<lparr>word = ''Hi'', wstart = 0, wend = 1 / 2\<rparr>, \<lparr>word = ''there'', wstart = 1, wend = 2\<rparr>]\<rparr> \<le> 3 / 4 \<and> 3 / 4 < endTime \<lparr>startTime = 0, endTime = 2, text' = ''Hi there'', words = Some [\<lparr>word = ''Hi'', wstart = 0, wend = 1 / 2\<rparr>, \<lparr>word = ''there'', wstart = 1, wend = 2\<rparr>]\<rparr>
   \<and> fst (drawWordByWordCaption \<lparr>measureText = (\<lambda>f s. real (length s) * fpx f / 2), toUpperCase = map (\<lambda>c. if 97 \<le> (of_char c :: nat) \<and> (of_char c :: nat) \<le> 122 then char_of ((of_char c :: nat) - 32) else c), fsub = (\<lambda>x y. x - y), fdiv = (\<lambda>x y. x / y), fmul = (\<lambda>x y. x * y)\<rparr> \<lparr>width = 18, height = 36\<rparr> initialCtx \<lparr>startTime = 0, endTime = 2, text' = ''Hi there'', words = Some [\<lparr>word = ''Hi'', wstart = 0, wend = 1 / 2\<rparr>, \<lparr>word = ''there'', wstart = 1, wend = 2\<rparr>]\<rparr> \<lparr>template = WordByWord, position = Center, fontSize = Medium, fontFamily = ''Inter'', textColor = ''#ffffff'', backgroundColor = ''rgba(0, 0, 0, 0.8)''\<rparr> (3 / 4)) = []"
  by code_simp

section \<open>Properties: empty timelines\<close>

lemma frames_append: "frames (a @ b) = frames a @ frames b"
  by (induction a rule: frames.induct) auto

lemma frames_reportProgress: "frames (fst (reportProgress h tot l e)) = []"
  by (simp add: reportProgress_def Let_def)

lemma currentScene_nonempty:
  "tms \<noteq> [] \<Longrightarrow> \<exists>sc. currentScene tms e = Some sc"
  by (simp add: currentScene_def split: option.splits)

lemma compose_no_scenes:
  "composeVideo h [] caps st ar (e # es) =
     Some \<lparr>returned = None,
           events = [Progress LoadingImages, Progress PreparingAudio, CreateObjectURL,
                     Progress SettingUpRecording, Progress RecordingVideo, RecorderStart, AudioPlay]
                    @ fst (reportProgress h 0 (Num 0) e)
                    @ [ConsoleError TypeError, Progress (ErrorMsg TypeError)]\<rparr>"
  by (simp add: composeVideo_def Let_def tick_def sceneTimings_def currentScene_def
        totalDuration_def split: prod.splits)

lemma tick_last:
  assumes "rtimings r \<noteq> []" "\<not> e < rtotal r"
  shows "\<exists>ops s'. tick r s e = (fst (reportProgress (rhost r) (rtotal r) (lastProgress s) e) @ [Frame ops],
                                Inr (s', False))"
proof -
  obtain sc where sc: "currentScene (rtimings r) e = Some sc"
    using currentScene_nonempty[OF assms(1)] by blast
  show ?thesis using assms(2) sc
    by (simp add: tick_def split: prod.splits)
qed

lemma compose_zero_duration:
  assumes "scenes \<noteq> []" "totalDuration scenes = 0" "0 \<le> e"
  shows "\<exists>r fr. composeVideo h scenes caps st ar (e # es) = Some r \<and> returned r = Some [fr]"
proof -
  let ?r = "\<lparr>rhost = h, rdims = load ar, rtimings = sceneTimings (load ar) scenes,
               rtotal = totalDuration scenes, rcaptions = caps, rsettings = st\<rparr>"
  let ?s = "\<lparr>lastProgress = Num 0, canvasCtx = initialCtx\<rparr>"
  have ne: "rtimings ?r \<noteq> []" using assms(1) sceneTimings_length[of "load ar" scenes] by auto
  have nl: "\<not> e < rtotal ?r" using assms(2,3) by simp
  obtain ops s' where t: "tick ?r ?s e
        = (fst (reportProgress (rhost ?r) (rtotal ?r) (lastProgress ?s) e) @ [Frame ops], Inr (s', False))"
    using tick_last[OF ne nl] by blast
  have "animate ?r True ?s (e # es)
        = (fst (reportProgress (rhost ?r) (rtotal ?r) (lastProgress ?s) e) @ [Frame ops] @ [AudioPause, RecorderStop],
           Stopped)"
    using t by simp
  then show ?thesis
    by (simp add: composeVideo_def Let_def frames_append frames_reportProgress)
qed

text \<open>
  Claim C3, as the code has it. Composition has no check for an empty timeline. Started
  with zero scenes, it returns \<^verbatim>\<open>null\<close>, so no video artifact: the scene lookup of the
  first tick finds no scene, and the error this raises is caught, logged and reported
  through \<^verbatim>\<open>onProgress\<close>; by then the progress messages have been sent and the recorder
  and the audio playback have been started. Started with a non-empty scene list whose
  total duration is zero, it does not fail: the first tick (at an elapsed time \<open>\<ge> 0\<close>)
  draws one frame and stops the recording, and the artifact with that frame is returned.
\<close>

theorem empty_timeline:
  "composeVideo h [] caps st ar (e # es) =
     Some \<lparr>returned = None,
           events = [Progress LoadingImages, Progress PreparingAudio, CreateObjectURL,
                     Progress SettingUpRecording, Progress RecordingVideo, RecorderStart, AudioPlay]
                    @ fst (reportProgress h 0 (Num 0) e)
                    @ [ConsoleError TypeError, Progress (ErrorMsg TypeError)]\<rparr>
   \<and> (scenes \<noteq> [] \<and> totalDuration scenes = 0 \<and> 0 \<le> e \<longrightarrow>
        (\<exists>r fr. composeVideo h scenes caps st ar (e # es) = Some r \<and> returned r = Some [fr]))"
  using compose_no_scenes[of h caps st ar e es] compose_zero_duration[of scenes e h caps st ar es]
  by blast

theorem empty_timeline_witness:
  "[\<lparr>duration = 0, imageUrl = None\<rparr>] \<noteq> [] \<and> totalDuration [\<lparr>duration = 0, imageUrl = None\<rparr>] = 0 \<and> (0::real) \<le> 0
   \<and> (\<exists>r fr. composeVideo \<lparr>measureText = (\<lambda>f s. real (length s) * fpx f / 2), toUpperCase = map (\<lambda>c. if 97 \<le> (of_char c :: nat) \<and> (of_char c :: nat) \<le> 122 then char_of ((of_char c :: nat) - 32) else c), fsub = (\<lambda>x y. x - y), fdiv = (\<lambda>x y. x / y), fmul = (\<lambda>x y. x * y)\<rparr> [\<lparr>duration = 0, imageUrl = None\<rparr>] [] \<lparr>template = Sentence, position = Bottom, fontSize = Medium, fontFamily = ''Inter'', textColor = ''#ffffff'', backgroundColor = ''rgba(0, 0, 0, 0.8)''\<rparr> AR_1_1 [0] = Some r \<and> returned r = Some [fr])"
  using empty_timeline [of "\<lparr>measureText = (\<lambda>f s. real (length s) * fpx f / 2), toUpperCase = map (\<lambda>c. if 97 \<le> (of_char c :: nat) \<and> (of_char c :: nat) \<le> 122 then char_of ((of_char c :: nat) - 32) else c), fsub = (\<lambda>x y. x - y), fdiv = (\<lambda>x y. x / y), fmul = (\<lambda>x y. x * y)\<rparr>" "[]" "\<lparr>template = Sentence, position = Bottom, fontSize = Medium, fontFamily = ''Inter'', textColor = ''#ffffff'', backgroundColor = ''rgba(0, 0, 0, 0.8)''\<rparr>" AR_1_1 0 "[]" "[\<lparr>duration = 0, imageUrl = None\<rparr>]"]
  by (simp add: totalDuration_def)

text \<open>
  A single scene of duration 0 gives a timeline of total duration zero, and composition
  returns an artifact; with no scene at all, the recorder has been started by the time
  composition fails.
\<close>

theorem empty_timeline_counterexample:
  "totalDuration [\<lparr>duration = 0, imageUrl = None\<rparr>] = 0
   \<and> (\<exists>r fr. composeVideo \<lparr>measureText = (\<lambda>f s. real (length s) * fpx f / 2), toUpperCase = map (\<lambda>c. if 97 \<le> (of_char c :: nat) \<and> (of_char c :: nat) \<le> 122 then char_of ((of_char c :: nat) - 32) else c), fsub = (\<lambda>x y. x - y), fdiv = (\<lambda>x y. x / y), fmul = (\<lambda>x y. x * y)\<rparr> [\<lparr>duration = 0, imageUrl = None\<rparr>] [] \<lparr>template = Sentence, position = Bottom, fontSize = Medium, fontFamily = ''Inter'', textColor = ''#ffffff'', backgroundColor = ''rgba(0, 0, 0, 0.8)''\<rparr> AR_1_1 [0] = Some r \<and> returned r = Some [fr])
   \<and> RecorderStart \<in> set (events (the (composeVideo \<lparr>measureText = (\<lambda>f s. real (length s) * fpx f / 2), toUpperCase = map (\<lambda>c. if 97 \<le> (of_char c :: nat) \<and> (of_char c :: nat) \<le> 122 then char_of ((of_char c :: nat) - 32) else c), fsub = (\<lambda>x y. x - y), fdiv = (\<lambda>x y. x / y), fmul = (\<lambda>x y. x * y)\<rparr> [] [] \<lparr>template = Sentence, position = Bottom, fontSize = Medium, fontFamily = ''Inter'', textColor = ''#ffffff'', backgroundColor = ''rgba(0, 0, 0, 0.8)''\<rparr> AR_1_1 [0])))"
  using compose_zero_duration [of "[\<lparr>duration = 0, imageUrl = None\<rparr>]" 0 "\<lparr>measureText = (\<lambda>f s. real (length s) * fpx f / 2), toUpperCase = map (\<lambda>c. if 97 \<le> (of_char c :: nat) \<and> (of_char c :: nat) \<le> 122 then char_of ((of_char c :: nat) - 32) else c), fsub = (\<lambda>x y. x - y), fdiv = (\<lambda>x y. x / y), fmul = (\<lambda>x y. x * y)\<rparr>" "[]" "\<lparr>template = Sentence, position = Bottom, fontSize = Medium, fontFamily = ''Inter'', textColor = ''#ffffff'', backgroundColor = ''rgba(0, 0, 0, 0.8)''\<rparr>" AR_1_1 "[]"]
        compose_no_scenes [of "\<lparr>measureText = (\<lambda>f s. real (length s) * fpx f / 2), toUpperCase = map (\<lambda>c. if 97 \<le> (of_char c :: nat) \<and> (of_char c :: nat) \<le> 122 then char_of ((of_char c :: nat) - 32) else c), fsub = (\<lambda>x y. x - y), fdiv = (\<lambda>x y. x / y), fmul = (\<lambda>x y. x * y)\<rparr>" "[]" "\<lparr>template = Sentence, position = Bottom, fontSize = Medium, fontFamily = ''Inter'', textColor = ''#ffffff'', backgroundColor = ''rgba(0, 0, 0, 0.8)''\<rparr>" AR_1_1 0 "[]"]
  by (simp add: totalDuration_def)

end
